theory Spec2Isabelle
  imports Complex_Main
begin

section \<open>Data model\<close>

text \<open>
  The program works on numpy arrays of double precision numbers. An array of rank two is
  modelled as the list of its rows, which is also what \<^verbatim>\<open>tolist()\<close> stores in the
  model dictionary; numbers are modelled as reals, so infinities and NaN are outside the
  model. Where a statement would depend on how double arithmetic rounds, the arithmetic of
  the classifier is a parameter. An array without rows is the empty list; its column count is not
  recorded.
  An image is a two-dimensional array of pixel intensities.
\<close>

type_synonym vec = "real list"
type_synonym matrix = "real list list"
type_synonym image = "real list list"

text \<open>The exceptions that the modelled code can raise.\<close>

datatype error = ValueError | IndexError | KeyError | LinAlgError

text \<open>
  The model dictionary of \<^verbatim>\<open>process_training_data\<close>, one field per key. The key
  \<^verbatim>\<open>'dim'\<close> is the field \<open>dim_final\<close>. The key \<^verbatim>\<open>'fvectors_train'\<close> is only
  added at the end of training, so its field is optional.
\<close>

record 'l model =
  labels_train :: "'l list"
  bbox_size :: "nat \<times> nat"
  eigenvector :: matrix
  noise_dim :: int
  dim_final :: int
  fvectors_train :: "matrix option"

text \<open>
  \<^verbatim>\<open>scipy.linalg.eigh(a, eigvals=(lo, hi))\<close> is a library routine and stays a
  parameter: it returns the eigenvalues with indices \<open>lo\<close> to \<open>hi\<close> in ascending order
  and a matrix whose columns are the matching eigenvectors, or raises.
\<close>

type_synonym eigh_fn = "matrix \<Rightarrow> int \<Rightarrow> int \<Rightarrow> error + (vec \<times> matrix)"

text \<open>
  \<^verbatim>\<open>utils.load_char_images(page_name, images)\<close> and
  \<^verbatim>\<open>utils.load_labels(page_name, labels)\<close> are input routines outside the
  repository's source file and stay parameters; the second argument is \<open>None\<close> where the
  call leaves it out.
\<close>

type_synonym 'p image_loader = "'p \<Rightarrow> image list option \<Rightarrow> image list"
type_synonym ('p, 'l) label_loader = "'p \<Rightarrow> 'l list \<Rightarrow> 'l list"

section \<open>The numpy operations used by the program\<close>

text \<open>\<^verbatim>\<open>a.shape[0]\<close> is \<open>length a\<close>; \<^verbatim>\<open>a.shape[1]\<close> is \<open>ncols a\<close>.\<close>

definition ncols :: "'a list list \<Rightarrow> nat" where
  "ncols a = (case a of [] \<Rightarrow> 0 | r # _ \<Rightarrow> length r)"

text \<open>\<^verbatim>\<open>a.size\<close>: the number of entries.\<close>

definition np_size :: "matrix \<Rightarrow> nat" where
  "np_size a = length (concat a)"

text \<open>
  \<^verbatim>\<open>np.mean(a)\<close> without an axis: the mean of all entries, one scalar. For an array
  without entries numpy returns NaN, which the model does not have.
\<close>

definition np_mean :: "matrix \<Rightarrow> real" where
  "np_mean a = sum_list (concat a) / real (length (concat a))"

text \<open>A scalar subtracted from, or added to, every entry (broadcasting).\<close>

definition sub_scalar :: "matrix \<Rightarrow> real \<Rightarrow> matrix" where
  "sub_scalar a m = map (map (\<lambda>x. x - m)) a"

definition add_scalar :: "matrix \<Rightarrow> real \<Rightarrow> matrix" where
  "add_scalar a m = map (map (\<lambda>x. x + m)) a"

text \<open>
  \<^verbatim>\<open>a.transpose()\<close> of an array with at least one row and one column: row \<open>j\<close>
  of the result is column \<open>j\<close> of \<open>a\<close>.
\<close>

fun np_transpose :: "'a list list \<Rightarrow> 'a list list" where
  "np_transpose [] = []"
| "np_transpose (r # rs) =
     (if rs = [] then map (\<lambda>x. [x]) r else map2 (#) r (np_transpose rs))"

text \<open>\<^verbatim>\<open>np.fliplr(a)\<close>: the columns in reverse order.\<close>

definition np_fliplr :: "matrix \<Rightarrow> matrix" where
  "np_fliplr a = map rev a"

text \<open>The dot product of two vectors.\<close>

definition dot :: "vec \<Rightarrow> vec \<Rightarrow> real" where
  "dot x y = sum_list (map2 (*) x y)"

text \<open>
  \<^verbatim>\<open>np.dot(a, b)\<close> on arrays of rank two: the matrix product, ValueError when the
  width of \<open>a\<close> is not the height of \<open>b\<close>.
\<close>

definition np_dot :: "matrix \<Rightarrow> matrix \<Rightarrow> error + matrix" where
  "np_dot a b =
     (if list_all (\<lambda>r. length r = length b) a
      then Inr (map (\<lambda>r. map (dot r) (np_transpose b)) a)
      else Inl ValueError)"

text \<open>
  \<^verbatim>\<open>np.cov(m, rowvar=0)\<close>: the columns are the variables and the rows the
  observations; each variable is centred by its own mean and the products are divided by
  the number of observations less one. numpy squeezes the result, so one variable (a
  single column, and also a single row or an empty array, which numpy reads as one
  variable) gives an array of rank zero, here \<open>Cov0\<close>; its value is never read.
\<close>

datatype cov_result = Cov0 | Cov2 matrix

definition np_cov_rowvar0 :: "matrix \<Rightarrow> cov_result" where
  "np_cov_rowvar0 m =
     (if length m < 2 then Cov0
      else if ncols m = 0 then Cov2 []
      else if ncols m = 1 then Cov0
      else
        let X = np_transpose m;
            avg = map (\<lambda>r. sum_list r / real (length m)) X;
            fact = real (length m) - 1;
            X = map2 (\<lambda>r a. map (\<lambda>x. x - a) r) X avg
        in Cov2 (map (\<lambda>r. map (\<lambda>s. dot r s * (1 / fact)) X) X))"

text \<open>
  \<^verbatim>\<open>np.argmax\<close> of one row: the first index holding the maximum; ValueError on an
  empty row.
\<close>

fun argmax_from :: "nat \<Rightarrow> real \<Rightarrow> nat \<Rightarrow> vec \<Rightarrow> nat" where
  "argmax_from bi bv i [] = bi"
| "argmax_from bi bv i (x # xs) =
     (if bv < x then argmax_from i x (Suc i) xs else argmax_from bi bv (Suc i) xs)"

fun np_argmax :: "vec \<Rightarrow> error + nat" where
  "np_argmax [] = Inl ValueError"
| "np_argmax (x # xs) = Inr (argmax_from 0 x 1 xs)"

text \<open>Python's \<^verbatim>\<open>max\<close> of a sequence: ValueError when the sequence is empty.\<close>

fun py_max :: "nat list \<Rightarrow> error + nat" where
  "py_max [] = Inl ValueError"
| "py_max (x # xs) = Inr (fold max xs x)"

text \<open>The first error of a list of results, or all the values.\<close>

fun collect :: "('e + 'a) list \<Rightarrow> 'e + 'a list" where
  "collect [] = Inr []"
| "collect (Inl e # rs) = Inl e"
| "collect (Inr x # rs) = (case collect rs of Inl e \<Rightarrow> Inl e | Inr xs \<Rightarrow> Inr (x # xs))"

text \<open>\<^verbatim>\<open>a.reshape(h, w)\<close> of a flat array, row-major.\<close>

definition np_reshape :: "nat \<Rightarrow> nat \<Rightarrow> 'a list \<Rightarrow> 'a list list" where
  "np_reshape h w xs = map (\<lambda>r. take w (drop (r * w) xs)) [0..<h]"

section \<open>Feature extraction\<close>

text \<open>\<^verbatim>\<open>get_bounding_box_size\<close>, lines 13 to 17.\<close>

definition get_bounding_box_size :: "image list \<Rightarrow> error + (nat \<times> nat)" where
  "get_bounding_box_size images =
     (case py_max (map length images) of
        Inl e \<Rightarrow> Inl e
      | Inr height \<Rightarrow>
          (case py_max (map ncols images) of
             Inl e \<Rightarrow> Inl e
           | Inr width \<Rightarrow> Inr (height, width)))"

text \<open>
  The slice assignment \<^verbatim>\<open>padded_image[0:h, 0:w] = image[0:h, 0:w]\<close> of line 44.
\<close>

definition assign_block :: "nat \<Rightarrow> nat \<Rightarrow> matrix \<Rightarrow> image \<Rightarrow> matrix" where
  "assign_block h w padded img =
     map2 (\<lambda>p r. take w r @ drop w p) (take h padded) (take h img) @ drop h padded"

text \<open>The body of the loop of \<^verbatim>\<open>images_to_feature_vectors\<close>, lines 39 to 45.\<close>

definition pad_image :: "nat \<times> nat \<Rightarrow> image \<Rightarrow> vec" where
  "pad_image bbox img =
     (let (bbox_h, bbox_w) = bbox;
          padded_image = replicate bbox_h (replicate bbox_w 255);
          h = min (length img) bbox_h;
          w = min (ncols img) bbox_w
      in concat (assign_block h w padded_image img))"

text \<open>\<^verbatim>\<open>images_to_feature_vectors\<close>, lines 20 to 47.\<close>

definition images_to_feature_vectors :: "image list \<Rightarrow> (nat \<times> nat) option \<Rightarrow> error + matrix" where
  "images_to_feature_vectors images bbox_opt =
     (case (case bbox_opt of None \<Rightarrow> get_bounding_box_size images | Some b \<Rightarrow> Inr b) of
        Inl e \<Rightarrow> Inl e
      | Inr bbox \<Rightarrow> Inr (map (pad_image bbox) images))"

section \<open>Principal component analysis\<close>

text \<open>
  \<^verbatim>\<open>doPCA\<close>, lines 98 to 109: the basis used by the call and the model after it.
  The stored basis is used when it has entries; otherwise the basis is computed and is
  written to the model only when \<open>d\<close> is the final dimension.
\<close>

definition doPCA_basis :: "eigh_fn \<Rightarrow> matrix \<Rightarrow> 'l model \<Rightarrow> int \<Rightarrow> error + (matrix \<times> 'l model)" where
  "doPCA_basis eigh feature_vector m d =
     (let v = eigenvector m in
      if np_size v = 0 then
        (case np_cov_rowvar0 feature_vector of
           Cov0 \<Rightarrow> Inl IndexError
         | Cov2 covx \<Rightarrow>
             (let N = int (length covx) in
              case eigh covx (N - d) (N - 1) of
                Inl e \<Rightarrow> Inl e
              | Inr (w, v) \<Rightarrow>
                  (let v = np_fliplr v in
                   Inr (v, if d = dim_final m then m\<lparr>eigenvector := v\<rparr> else m))))
      else Inr (v, m))"

text \<open>\<^verbatim>\<open>doPCA\<close>, lines 112 to 119: projection, and reconstruction in the noise pass.\<close>

definition doPCA_project :: "matrix \<Rightarrow> matrix \<Rightarrow> int \<Rightarrow> int \<Rightarrow> error + matrix" where
  "doPCA_project feature_vector v nd d =
     (case np_dot (sub_scalar feature_vector (np_mean feature_vector)) v of
        Inl e \<Rightarrow> Inl e
      | Inr pca_processed_data \<Rightarrow>
          if d = nd then
            (case np_dot pca_processed_data (np_transpose v) of
               Inl e \<Rightarrow> Inl e
             | Inr r \<Rightarrow> Inr (add_scalar r (np_mean feature_vector)))
          else Inr pca_processed_data)"

text \<open>
  \<^verbatim>\<open>doPCA\<close>, lines 75 to 119. The model is a mutable dictionary, so the call returns
  the model it leaves behind next to its result or exception.
\<close>

definition doPCA :: "eigh_fn \<Rightarrow> matrix \<Rightarrow> 'l model \<Rightarrow> int \<Rightarrow> (error + matrix) \<times> 'l model" where
  "doPCA eigh feature_vector m d =
     (case doPCA_basis eigh feature_vector m d of
        Inl e \<Rightarrow> (Inl e, m)
      | Inr (v, m') \<Rightarrow> (doPCA_project feature_vector v (noise_dim m) d, m'))"

text \<open>\<^verbatim>\<open>reduce_dimensions\<close>, lines 50 to 73.\<close>

definition reduce_dimensions :: "eigh_fn \<Rightarrow> matrix \<Rightarrow> 'l model \<Rightarrow> (error + matrix) \<times> 'l model" where
  "reduce_dimensions eigh feature_vectors_full m =
     (let nd = noise_dim m; dm = dim_final m in
      case doPCA eigh feature_vectors_full m nd of
        (Inl e, m1) \<Rightarrow> (Inl e, m1)
      | (Inr reconstructed_feature_vector, m1) \<Rightarrow>
          doPCA eigh reconstructed_feature_vector m1 dm)"

section \<open>Training and inference\<close>

text \<open>\<^verbatim>\<open>process_training_data\<close>, lines 123 to 158.\<close>

definition process_training_data ::
  "'p image_loader \<Rightarrow> ('p, 'l) label_loader \<Rightarrow> eigh_fn \<Rightarrow> 'p list \<Rightarrow> error + 'l model" where
  "process_training_data load_char_images load_labels eigh train_page_names =
     (let images_train = fold (\<lambda>page_name images. load_char_images page_name (Some images))
                           train_page_names [];
          labels = fold load_labels train_page_names []
      in case get_bounding_box_size images_train of
           Inl e \<Rightarrow> Inl e
         | Inr bbox \<Rightarrow>
             (case images_to_feature_vectors images_train (Some bbox) of
                Inl e \<Rightarrow> Inl e
              | Inr fvectors_train_full \<Rightarrow>
                  (let model_data = \<lparr>labels_train = labels, bbox_size = bbox,
                         eigenvector = [], noise_dim = 50, dim_final = 10,
                         fvectors_train = None\<rparr>
                   in case reduce_dimensions eigh fvectors_train_full model_data of
                        (Inl e, model_data) \<Rightarrow> Inl e
                      | (Inr fvs, model_data) \<Rightarrow>
                          Inr (model_data\<lparr>fvectors_train := Some fvs\<rparr>))))"

text \<open>
  \<^verbatim>\<open>nearest_neighbour\<close>, lines 187 to 190: the matrix of cosine similarities.
  \<open>row_norm\<close> is one entry of \<^verbatim>\<open>np.sqrt(np.sum(a * a, axis=1))\<close>.
\<close>

definition row_norm :: "vec \<Rightarrow> real" where
  "row_norm r = sqrt (sum_list (map2 (*) r r))"

definition cosine_matrix :: "matrix \<Rightarrow> matrix \<Rightarrow> error + matrix" where
  "cosine_matrix fvs_train fvectors_test =
     (case np_dot fvectors_test (np_transpose fvs_train) of
        Inl e \<Rightarrow> Inl e
      | Inr x \<Rightarrow>
          (let modtest = map row_norm fvectors_test;
               modtrain = map row_norm fvs_train
           in Inr (map2 (\<lambda>xr mt. map2 (\<lambda>xv mr. xv / (mt * mr)) xr modtrain) x modtest)))"

text \<open>
  \<^verbatim>\<open>nearest_neighbour\<close>, lines 178 to 193. Without training rows the similarity
  matrix has no columns and \<^verbatim>\<open>np.argmax\<close> raises.
\<close>

definition nearest_neighbour :: "matrix \<Rightarrow> 'l list \<Rightarrow> matrix \<Rightarrow> error + 'l list" where
  "nearest_neighbour fvs_train labels fvectors_test =
     (if fvs_train = [] then Inl ValueError
      else
        case cosine_matrix fvs_train fvectors_test of
          Inl e \<Rightarrow> Inl e
        | Inr dst \<Rightarrow>
            (case collect (map np_argmax dst) of
               Inl e \<Rightarrow> Inl e
             | Inr nearest \<Rightarrow>
                 collect (map (\<lambda>j. if j < length labels then Inr (labels ! j)
                                    else Inl IndexError) nearest)))"

text \<open>\<^verbatim>\<open>classify_page\<close>, lines 161 to 176.\<close>

definition classify_page :: "matrix \<Rightarrow> 'l model \<Rightarrow> error + 'l list" where
  "classify_page page m =
     (case fvectors_train m of
        None \<Rightarrow> Inl KeyError
      | Some fvs_train \<Rightarrow> nearest_neighbour fvs_train (labels_train m) page)"

text \<open>
  \<^verbatim>\<open>nearest_neighbour\<close>, lines 187 to 193, once more, with the arithmetic left open.
  numpy computes in double precision, where each step rounds its result, so the computed
  similarities need not be the exact quotients of \<open>cosine_matrix\<close>. An \<open>arith\<close> holds
  the four computed operations of lines 187 to 190: the dot product of a test row and a
  training row (an entry of \<^verbatim>\<open>np.dot\<close>), the norm of a row (an entry of
  \<^verbatim>\<open>np.sqrt(np.sum(a * a, axis=1))\<close>), the product of two norms (an entry of
  \<^verbatim>\<open>np.outer\<close>) and the quotient. \<open>exact\<close> is the arithmetic of the reals, for
  which these definitions are \<open>cosine_matrix\<close> and \<open>nearest_neighbour\<close>; double
  arithmetic is another instance.
\<close>

record arith =
  a_dot :: "vec \<Rightarrow> vec \<Rightarrow> real"
  a_norm :: "vec \<Rightarrow> real"
  a_mul :: "real \<Rightarrow> real \<Rightarrow> real"
  a_div :: "real \<Rightarrow> real \<Rightarrow> real"

definition exact :: arith where
  "exact = \<lparr>a_dot = dot, a_norm = row_norm, a_mul = (*), a_div = (/)\<rparr>"

definition np_dot_rounded :: "(vec \<Rightarrow> vec \<Rightarrow> real) \<Rightarrow> matrix \<Rightarrow> matrix \<Rightarrow> error + matrix" where
  "np_dot_rounded fdot a b =
     (if list_all (\<lambda>r. length r = length b) a
      then Inr (map (\<lambda>r. map (fdot r) (np_transpose b)) a)
      else Inl ValueError)"

definition cosine_matrix_rounded :: "arith \<Rightarrow> matrix \<Rightarrow> matrix \<Rightarrow> error + matrix" where
  "cosine_matrix_rounded ar fvs_train fvectors_test =
     (case np_dot_rounded (a_dot ar) fvectors_test (np_transpose fvs_train) of
        Inl e \<Rightarrow> Inl e
      | Inr x \<Rightarrow>
          (let modtest = map (a_norm ar) fvectors_test;
               modtrain = map (a_norm ar) fvs_train
           in Inr (map2 (\<lambda>xr mt. map2 (\<lambda>xv mr. a_div ar xv (a_mul ar mt mr)) xr modtrain)
                     x modtest)))"

definition nearest_neighbour_rounded :: "arith \<Rightarrow> matrix \<Rightarrow> 'l list \<Rightarrow> matrix \<Rightarrow> error + 'l list" where
  "nearest_neighbour_rounded ar fvs_train labels fvectors_test =
     (if fvs_train = [] then Inl ValueError
      else
        case cosine_matrix_rounded ar fvs_train fvectors_test of
          Inl e \<Rightarrow> Inl e
        | Inr dst \<Rightarrow>
            (case collect (map np_argmax dst) of
               Inl e \<Rightarrow> Inl e
             | Inr nearest \<Rightarrow>
                 collect (map (\<lambda>j. if j < length labels then Inr (labels ! j)
                                    else Inl IndexError) nearest)))"

text \<open>\<^verbatim>\<open>load_test_page\<close>, lines 195 to 211.\<close>

definition load_test_page ::
  "'p image_loader \<Rightarrow> eigh_fn \<Rightarrow> 'p \<Rightarrow> 'l model \<Rightarrow> (error + matrix) \<times> 'l model" where
  "load_test_page load_char_images eigh page_name m =
     (let bbox = bbox_size m;
          images_test = load_char_images page_name None
      in case images_to_feature_vectors images_test (Some bbox) of
           Inl e \<Rightarrow> (Inl e, m)
         | Inr fvectors_test \<Rightarrow> reduce_dimensions eigh fvectors_test m)"

text \<open>\<^verbatim>\<open>correct_errors\<close>, lines 215 to 226.\<close>

definition correct_errors :: "matrix \<Rightarrow> 'l list \<Rightarrow> 'b \<Rightarrow> 'l model \<Rightarrow> 'l list" where
  "correct_errors page labels bboxes m = labels"


section \<open>Terms of the specification\<close>

text \<open>
  The definitions of this section are not code of the program. They write the notions
  that the specification uses by index, so that the functions above can be compared with
  them.
\<close>

text \<open>
  The cosine similarity of two vectors: the dot product divided by the product of the
  two Euclidean norms.
\<close>

definition cosine_similarity :: "vec \<Rightarrow> vec \<Rightarrow> real" where
  "cosine_similarity a b =
     (\<Sum>k < length a. a ! k * b ! k)
       / (sqrt (\<Sum>k < length a. a ! k * a ! k) * sqrt (\<Sum>k < length b. b ! k * b ! k))"

text \<open>The mean of column \<open>j\<close> of a matrix whose rows are observations.\<close>

definition col_mean :: "matrix \<Rightarrow> nat \<Rightarrow> real" where
  "col_mean a j = (\<Sum>i < length a. a ! i ! j) / real (length a)"

text \<open>
  Column \<open>c\<close> of a matrix, the product of a matrix and a vector, and the contract of an
  eigendecomposition: \<open>eigenpairs a w v\<close> holds when \<open>v\<close> has one column per entry of
  \<open>w\<close> and column \<open>c\<close> of \<open>v\<close> is mapped by \<open>a\<close> to \<open>w ! c\<close> times itself;
  \<open>unit_columns v n\<close> holds when the first \<open>n\<close> columns of \<open>v\<close> have norm one.
\<close>

definition column :: "matrix \<Rightarrow> nat \<Rightarrow> vec" where
  "column a c = map (\<lambda>r. r ! c) a"

definition mat_vec :: "matrix \<Rightarrow> vec \<Rightarrow> vec" where
  "mat_vec a x = map (\<lambda>r. dot r x) a"

definition eigenpairs :: "matrix \<Rightarrow> vec \<Rightarrow> matrix \<Rightarrow> bool" where
  "eigenpairs a w v \<longleftrightarrow>
     list_all (\<lambda>r. length r = length w) v
     \<and> list_all (\<lambda>c. mat_vec a (column v c) = map ((*) (w ! c)) (column v c)) [0..<length w]"

definition unit_columns :: "matrix \<Rightarrow> nat \<Rightarrow> bool" where
  "unit_columns v n \<longleftrightarrow> list_all (\<lambda>c. dot (column v c) (column v c) = 1) [0..<n]"

section \<open>Example data\<close>

text \<open>
  A model with a stored basis, a model as training creates it (with small dimensions),
  that model with the basis that training stores for the example batch, and a model after
  training.
\<close>

definition ex_model :: "string model" where
  "ex_model = \<lparr>labels_train = [''a'', ''b''], bbox_size = (1, 2),
     eigenvector = [[1], [0]], noise_dim = 50, dim_final = 10,
     fvectors_train = Some [[1], [2]]\<rparr>"

definition ex_untrained :: "string model" where
  "ex_untrained = \<lparr>labels_train = [''a'', ''b''], bbox_size = (1, 2),
     eigenvector = [], noise_dim = 2, dim_final = 1, fvectors_train = None\<rparr>"

definition ex_stored :: "string model" where
  "ex_stored = \<lparr>labels_train = [''a'', ''b''], bbox_size = (1, 2),
     eigenvector = [[1], [0]], noise_dim = 2, dim_final = 1,
     fvectors_train = Some [[- 1 / 2], [3 / 2]]\<rparr>"

definition ex_trained :: "string model" where
  "ex_trained = \<lparr>labels_train = [''A'', ''B'', ''C''], bbox_size = (1, 2),
     eigenvector = [[1, 0], [0, 1]], noise_dim = 50, dim_final = 10,
     fvectors_train = Some [[1, 0], [0, 2], [2, 0]]\<rparr>"

text \<open>
  A batch of two observations of two features; its covariance matrix has the eigenvalues
  0 and 2. \<open>ex_eigh\<close> answers the two requests made for that matrix with unit
  eigenvectors and raises otherwise; \<open>no_eigh\<close> always raises.
\<close>

definition ex_batch :: matrix where
  "ex_batch = [[0, 0], [2, 0]]"

definition ex_eigh :: eigh_fn where
  "ex_eigh a lo hi =
     (if a = [[2, 0], [0, 0]] \<and> lo = 0 \<and> hi = 1 then Inr ([0, 2], [[0, 1], [1, 0]])
      else if a = [[2, 0], [0, 0]] \<and> lo = 1 \<and> hi = 1 then Inr ([2], [[1], [0]])
      else Inl LinAlgError)"

definition no_eigh :: eigh_fn where
  "no_eigh a lo hi = Inl LinAlgError"

text \<open>
  The arithmetic of doubles on the operands that occur for the training rows \<open>[7, 14]\<close>
  and \<open>[1, 2]\<close> and the test row \<open>[7, 14]\<close>, each result written as the fraction
  that the double is: the rounded square roots of 245 and 5, the rounded products of these
  norms (the second is exactly 35), and the rounded quotient of 245 and the first product.
  The dot products 245 and 35 and the quotient 35 / 35 are exact. On other operands
  \<open>ex_double\<close> is the arithmetic of the reals.
\<close>

definition ex_double :: arith where
  "ex_double =
     \<lparr>a_dot = dot,
      a_norm = (\<lambda>r. if r = [7, 14] then 4405780273231379 / 281474976710656
                     else if r = [1, 2] then 629397181890197 / 281474976710656
                     else row_norm r),
      a_mul = (\<lambda>x y. if x = 4405780273231379 / 281474976710656
                        \<and> y = 4405780273231379 / 281474976710656
                      then 8620171161763841 / 35184372088832
                      else if x = 4405780273231379 / 281474976710656
                        \<and> y = 629397181890197 / 281474976710656
                      then 35
                      else x * y),
      a_div = (\<lambda>x y. if x = 245 \<and> y = 8620171161763841 / 35184372088832
                      then 9007199254740991 / 9007199254740992
                      else x / y)\<rparr>"

text \<open>Three images: as large as a box of two by two, smaller, and larger.\<close>

definition ex_images :: "image list" where
  "ex_images = [[[1, 2], [3, 4]], [[5]], [[1, 2, 3], [4, 5, 6], [7, 8, 9]]]"

section \<open>Bounding box\<close>

lemma py_max_Max: "xs \<noteq> [] \<Longrightarrow> py_max xs = Inr (Max (set xs))"
  by (cases xs) (simp_all add: Max.set_eq_fold [symmetric])

text \<open>
  Claim C7. For a non-empty list of images \<^verbatim>\<open>get_bounding_box_size\<close> returns the
  pair of the largest height and the largest width, so no image is higher or wider than
  the returned box. The function is a pure function of the list: it returns a value and
  changes nothing.
\<close>

theorem get_bounding_box_size_is_max:
  assumes "images \<noteq> []"
  shows "\<exists>h w. get_bounding_box_size images = Inr (h, w)
           \<and> h = Max (length ` set images) \<and> w = Max (ncols ` set images)
           \<and> (\<forall>img \<in> set images. length img \<le> h \<and> ncols img \<le> w)"
proof -
  from assms have h: "py_max (map length images) = Inr (Max (length ` set images))"
    and w: "py_max (map ncols images) = Inr (Max (ncols ` set images))"
    by (simp_all add: py_max_Max)
  have "\<forall>img \<in> set images. length img \<le> Max (length ` set images)
          \<and> ncols img \<le> Max (ncols ` set images)"
    by simp
  with h w show ?thesis
    by (simp add: get_bounding_box_size_def)
qed

theorem get_bounding_box_size_is_max_witness:
  "[[[1, 2, 3], [4, 5, 6]], [[7], [8], [9::real]]] \<noteq> []
   \<and> get_bounding_box_size [[[1, 2, 3], [4, 5, 6]], [[7], [8], [9]]] = Inr (3, 3)"
  using get_bounding_box_size_is_max [of "[[[1, 2, 3], [4, 5, 6]], [[7], [8], [9]]]"]
  by (simp add: ncols_def)

text \<open>
  Claim C9. On the empty list \<^verbatim>\<open>get_bounding_box_size\<close> raises (the ValueError of
  \<^verbatim>\<open>max\<close> on an empty sequence) instead of returning a box, and training whose pages
  load no image stops with that error before any feature vector is built.
\<close>

theorem empty_corpus_fails_fast:
  "get_bounding_box_size [] = Inl ValueError
   \<and> (fold (\<lambda>page_name images. load_char_images page_name (Some images)) train_page_names [] = []
        \<longrightarrow> process_training_data load_char_images load_labels eigh train_page_names
              = Inl ValueError)"
  by (simp add: get_bounding_box_size_def process_training_data_def)

theorem empty_corpus_fails_fast_witness:
  "fold (\<lambda>page_name images. (\<lambda>p acc. case acc of None \<Rightarrow> [] | Some a \<Rightarrow> a) page_name (Some images))
      [''page1'', ''page2''] [] = ([] :: image list)
   \<and> process_training_data (\<lambda>p acc. case acc of None \<Rightarrow> [] | Some a \<Rightarrow> a)
        (\<lambda>p acc. acc @ [p]) (\<lambda>a lo hi. Inl LinAlgError) [''page1'', ''page2'']
      = (Inl ValueError :: error + string model)"
  using empty_corpus_fails_fast [of "\<lambda>p acc. case acc of None \<Rightarrow> [] | Some a \<Rightarrow> a"
      "[''page1'', ''page2'']" "\<lambda>p acc. acc @ [p]" "\<lambda>a lo hi. Inl LinAlgError"]
  by simp

section \<open>Error correction\<close>

text \<open>
  Claim C10. \<^verbatim>\<open>correct_errors\<close> returns the label list it was given, whatever the
  page, the bounding boxes and the model are. It reads none of its other arguments and
  assigns to nothing, so the page and the model are as they were.
\<close>

theorem correct_errors_identity: "correct_errors page labels bboxes m = labels"
  by (simp add: correct_errors_def)

section \<open>Feature vectors\<close>

text \<open>A matrix whose rows all have the width \<open>W\<close>, flattened and taken apart again.\<close>

lemma length_concat_rect:
  "\<forall>row \<in> set M. length row = W \<Longrightarrow> length (concat M) = length M * W"
  by (induction M) simp_all

lemma nth_concat_rect:
  "\<forall>row \<in> set M. length row = W \<Longrightarrow> r < length M \<Longrightarrow> c < W \<Longrightarrow>
   concat M ! (r * W + c) = M ! r ! c"
proof (induction M arbitrary: r)
  case Nil
  then show ?case by simp
next
  case (Cons a M)
  show ?case
  proof (cases r)
    case 0
    with Cons.prems show ?thesis by (simp add: nth_append)
  next
    case (Suc k)
    with Cons.prems have "concat M ! (k * W + c) = M ! k ! c"
      by (intro Cons.IH) simp_all
    with Suc Cons.prems show ?thesis
      by (simp add: nth_append add.assoc)
  qed
qed

lemma np_reshape_concat:
  "\<forall>row \<in> set M. length row = W \<Longrightarrow> np_reshape (length M) W (concat M) = M"
proof (induction M rule: rev_induct)
  case Nil
  then show ?case by (simp add: np_reshape_def)
next
  case (snoc a M)
  then have len: "length (concat M) = length M * W" and a: "length a = W"
    by (simp_all add: length_concat_rect)
  have "map (\<lambda>r. take W (drop (r * W) (concat M @ a))) [0..<length M]
        = map (\<lambda>r. take W (drop (r * W) (concat M))) [0..<length M]"
  proof (rule map_cong [OF refl])
    fix r assume "r \<in> set [0..<length M]"
    then have "Suc r \<le> length M" by simp
    then have "Suc r * W \<le> length M * W" by (rule mult_le_mono1)
    then have "r * W + W \<le> length (concat M)" by (simp add: len)
    then show "take W (drop (r * W) (concat M @ a)) = take W (drop (r * W) (concat M))"
      by simp
  qed
  with snoc len a show ?case
    by (simp add: np_reshape_def)
qed

text \<open>The canvas after the slice assignment: its shape and its cells.\<close>

lemma assign_block_shape:
  assumes "length padded = H" "\<forall>p \<in> set padded. length p = W"
    and "h \<le> H" "h \<le> length img" "w \<le> W" "\<forall>row \<in> set img. w \<le> length row"
  shows "length (assign_block h w padded img) = H"
    and "\<forall>row \<in> set (assign_block h w padded img). length row = W"
proof -
  from assms show "length (assign_block h w padded img) = H"
    by (simp add: assign_block_def)
  have "length (take w r @ drop w p) = W"
    if "(p, r) \<in> set (zip (take h padded) (take h img))" for p r
  proof -
    from that have "p \<in> set padded" "r \<in> set img"
      by (auto dest: set_zip_leftD set_zip_rightD in_set_takeD)
    with assms show ?thesis by simp
  qed
  moreover have "length p = W" if "p \<in> set (drop h padded)" for p
    using that assms(2) by (auto dest: in_set_dropD)
  ultimately show "\<forall>row \<in> set (assign_block h w padded img). length row = W"
    by (auto simp: assign_block_def)
qed

lemma assign_block_nth:
  assumes "length padded = H" "\<forall>p \<in> set padded. length p = W"
    and "h \<le> H" "h \<le> length img" "w \<le> W" "\<forall>row \<in> set img. w \<le> length row"
    and "r < H" "c < W"
  shows "assign_block h w padded img ! r ! c
         = (if r < h \<and> c < w then img ! r ! c else padded ! r ! c)"
proof (cases "r < h")
  case True
  with assms have "assign_block h w padded img ! r = take w (img ! r) @ drop w (padded ! r)"
    by (simp add: assign_block_def nth_append)
  moreover from True assms have "w \<le> length (img ! r)" by simp
  moreover from assms have "length (padded ! r) = W" by simp
  ultimately show ?thesis
    using True assms by (simp add: nth_append)
next
  case False
  with assms have "assign_block h w padded img ! r = padded ! r"
    by (simp add: assign_block_def nth_append)
  with False show ?thesis by simp
qed

lemma pad_image_props:
  assumes rect: "\<forall>row \<in> set img. length row = ncols img"
  shows "length (pad_image (H, W) img) = H * W"
    and "r < H \<Longrightarrow> c < W \<Longrightarrow>
         pad_image (H, W) img ! (r * W + c)
           = (if r < min (length img) H \<and> c < min (ncols img) W then img ! r ! c else 255)"
    and "length img = H \<Longrightarrow> ncols img = W \<Longrightarrow> np_reshape H W (pad_image (H, W) img) = img"
proof -
  let ?h = "min (length img) H" and ?w = "min (ncols img) W"
  let ?pad = "replicate H (replicate W (255::real))"
  let ?P = "assign_block ?h ?w ?pad img"
  have pi: "pad_image (H, W) img = concat ?P"
    by (simp add: pad_image_def Let_def)
  have a: "length ?pad = H" "\<forall>p \<in> set ?pad. length p = W" "?h \<le> H" "?h \<le> length img"
    "?w \<le> W" "\<forall>row \<in> set img. ?w \<le> length row"
    using rect by simp_all
  note shape = assign_block_shape [OF a]
  show "length (pad_image (H, W) img) = H * W"
    using length_concat_rect [OF shape(2)] shape(1) by (simp only: pi)
  show "pad_image (H, W) img ! (r * W + c)
           = (if r < min (length img) H \<and> c < min (ncols img) W then img ! r ! c else 255)"
    if "r < H" "c < W"
  proof -
    from that have "?pad ! r ! c = 255" by simp
    moreover from that shape(1) have "concat ?P ! (r * W + c) = ?P ! r ! c"
      by (intro nth_concat_rect [OF shape(2)]) simp_all
    ultimately show ?thesis
      using assign_block_nth [OF a that] by (simp only: pi)
  qed
  show "np_reshape H W (pad_image (H, W) img) = img" if "length img = H" "ncols img = W"
  proof -
    have "?P = img"
    proof (rule nth_equalityI)
      show "length ?P = length img" using shape that by simp
    next
      fix r assume "r < length ?P"
      with shape that have r: "r < H" by simp
      show "?P ! r = img ! r"
      proof (rule nth_equalityI)
        from r shape rect that show "length (?P ! r) = length (img ! r)" by simp
      next
        fix c assume "c < length (?P ! r)"
        with r shape have c: "c < W" by simp
        from assign_block_nth [OF a r c] r c that show "?P ! r ! c = img ! r ! c" by simp
      qed
    qed
    with rect that show ?thesis
      using np_reshape_concat [of img W] by (simp add: pi)
  qed
qed

text \<open>
  Claim C6. Images are arrays of rank two, so all rows of an image have its width. For
  every list of such images and every box \<open>(H, W)\<close>, \<^verbatim>\<open>images_to_feature_vectors\<close>
  returns without error one row per image, in the order of the images. Each row has length
  \<open>H * W\<close>, and its cell \<open>r * W + c\<close> (row-major) holds pixel \<open>(r, c)\<close> of the image
  when \<open>r\<close> is below \<open>min h H\<close> and \<open>c\<close> below \<open>min w W\<close>, where \<open>h\<close> and \<open>w\<close>
  are the image's height and width, and 255 otherwise. Hence a smaller image has 255 on
  every uncovered cell, a larger image is cut to its top-left \<open>H\<close> by \<open>W\<close> region, and
  an image of exactly the box size comes back unchanged when its row is reshaped.
\<close>

theorem images_to_feature_vectors_pads_and_crops:
  assumes rect: "\<forall>img \<in> set images. \<forall>row \<in> set img. length row = ncols img"
  shows "\<exists>F. images_to_feature_vectors images (Some (H, W)) = Inr F
           \<and> length F = length images
           \<and> (\<forall>i < length images.
                 length (F ! i) = H * W
               \<and> (\<forall>r < H. \<forall>c < W.
                     F ! i ! (r * W + c)
                       = (if r < min (length (images ! i)) H \<and> c < min (ncols (images ! i)) W
                          then images ! i ! r ! c else 255))
               \<and> (length (images ! i) = H \<and> ncols (images ! i) = W
                    \<longrightarrow> np_reshape H W (F ! i) = images ! i))"
proof -
  have "\<forall>row \<in> set (images ! i). length row = ncols (images ! i)" if "i < length images" for i
    using rect that by simp
  then show ?thesis
    by (simp add: images_to_feature_vectors_def pad_image_props)
qed

theorem images_to_feature_vectors_pads_and_crops_witness:
  "list_all (\<lambda>img. list_all (\<lambda>row. length row = ncols img) img) ex_images
   \<and> images_to_feature_vectors ex_images (Some (2, 2))
        = Inr [[1, 2, 3, 4], [5, 255, 255, 255], [1, 2, 4, 5]]
   \<and> np_reshape 2 2 [1, 2, 3, 4] = ex_images ! 0"
proof -
  have h: "\<forall>img \<in> set ex_images. \<forall>row \<in> set img. length row = ncols img"
    by (simp add: ex_images_def ncols_def)
  have e: "images_to_feature_vectors ex_images (Some (2, 2))
        = Inr [[1, 2, 3, 4], [5, 255, 255, 255], [1, 2, 4, 5]]"
    by (simp add: images_to_feature_vectors_def ex_images_def pad_image_def assign_block_def
        ncols_def eval_nat_numeral)
  from images_to_feature_vectors_pads_and_crops [OF h, of 2 2] e
  have "length (ex_images ! 0) = 2 \<and> ncols (ex_images ! 0) = 2
          \<longrightarrow> np_reshape 2 2 ([[1, 2, 3, 4], [5, 255, 255, 255], [1, 2, 4, 5]] ! 0) = ex_images ! 0"
    by (auto simp: ex_images_def)
  then have "np_reshape 2 2 [1, 2, 3, 4] = ex_images ! 0"
    by (simp add: ex_images_def ncols_def)
  with h e show ?thesis by (simp add: list_all_iff)
qed

section \<open>Matrix operations\<close>

text \<open>
  Transposition of a matrix with at least one row: shape and entries, and that transposing
  twice gives the matrix back when it has at least one column.
\<close>

lemma np_transpose_rect:
  assumes "a \<noteq> []" "\<forall>r \<in> set a. length r = k"
  shows "length (np_transpose a) = k \<and> (\<forall>c \<in> set (np_transpose a). length c = length a)
         \<and> (\<forall>j < k. \<forall>i < length a. np_transpose a ! j ! i = a ! i ! j)"
  using assms
proof (induction a)
  case Nil
  then show ?case by simp
next
  case (Cons r rs)
  show ?case
  proof (cases "rs = []")
    case True
    with Cons.prems show ?thesis by auto
  next
    case False
    with Cons have IH: "length (np_transpose rs) = k"
      "\<forall>c \<in> set (np_transpose rs). length c = length rs"
      "\<forall>j < k. \<forall>i < length rs. np_transpose rs ! j ! i = rs ! i ! j"
      by simp_all
    from Cons.prems have r: "length r = k" by simp
    have "length c = Suc (length rs)" if "c \<in> set (map2 (#) r (np_transpose rs))" for c
    proof -
      from that obtain x t where "c = x # t" "t \<in> set (np_transpose rs)"
        by (auto dest: set_zip_rightD)
      with IH(2) show ?thesis by simp
    qed
    moreover have "map2 (#) r (np_transpose rs) ! j ! i = (r # rs) ! i ! j"
      if "j < k" "i < Suc (length rs)" for i j
      using that r IH by (cases i) simp_all
    ultimately show ?thesis
      using False r IH(1) by simp
  qed
qed

lemma np_transpose_involution:
  assumes "a \<noteq> []" "\<forall>r \<in> set a. length r = k" "0 < k"
  shows "np_transpose (np_transpose a) = a"
proof -
  note t = np_transpose_rect [OF assms(1,2)]
  from t assms(3) have ne: "np_transpose a \<noteq> []" by auto
  from t have "\<forall>c \<in> set (np_transpose a). length c = length a" by simp
  note tt = np_transpose_rect [OF ne this]
  show ?thesis
  proof (rule nth_equalityI)
    from tt show "length (np_transpose (np_transpose a)) = length a" by simp
  next
    fix i assume "i < length (np_transpose (np_transpose a))"
    with tt have i: "i < length a" by simp
    show "np_transpose (np_transpose a) ! i = a ! i"
    proof (rule nth_equalityI)
      from tt t i assms(2) show "length (np_transpose (np_transpose a) ! i) = length (a ! i)"
        by simp
    next
      fix j assume "j < length (np_transpose (np_transpose a) ! i)"
      with tt t i have j: "j < k" by simp
      with tt t i show "np_transpose (np_transpose a) ! i ! j = a ! i ! j" by simp
    qed
  qed
qed

text \<open>The dot product as a sum over indices, and the entries of a matrix product.\<close>

lemma dot_sum: "length a = length b \<Longrightarrow> dot a b = (\<Sum>k < length a. a ! k * b ! k)"
proof -
  assume l: "length a = length b"
  have "dot a b = (\<Sum>k = 0..<length (map2 (*) a b). map2 (*) a b ! k)"
    unfolding dot_def by (rule sum_list_sum_nth)
  also have "\<dots> = (\<Sum>k < length a. a ! k * b ! k)"
    using l by (intro sum.cong) (auto simp: lessThan_atLeast0)
  finally show ?thesis .
qed

lemma np_dot_ok:
  "list_all (\<lambda>r. length r = length b) a \<Longrightarrow>
   np_dot a b = Inr (map (\<lambda>r. map (dot r) (np_transpose b)) a)"
  by (simp add: np_dot_def)

lemma np_dot_entries:
  assumes "v \<noteq> []" "\<forall>r \<in> set v. length r = k" "\<forall>r \<in> set a. length r = length v"
  shows "\<exists>P. np_dot a v = Inr P \<and> length P = length a
           \<and> (\<forall>i < length a. length (P ! i) = k
                 \<and> (\<forall>c < k. P ! i ! c = (\<Sum>t < length v. a ! i ! t * v ! t ! c)))"
proof -
  define P where "P = map (\<lambda>r. map (dot r) (np_transpose v)) a"
  note t = np_transpose_rect [OF assms(1,2)]
  from assms(3) have P: "np_dot a v = Inr P"
    by (simp add: np_dot_def P_def list_all_iff)
  have lenP: "length P = length a" by (simp add: P_def)
  have "length (P ! i) = k \<and> (\<forall>c < k. P ! i ! c = (\<Sum>t < length v. a ! i ! t * v ! t ! c))"
    if i: "i < length a" for i
  proof (intro conjI allI impI)
    from i t show "length (P ! i) = k" by (simp add: P_def)
  next
    fix c assume c: "c < k"
    from i assms(3) have la: "length (a ! i) = length v" by simp
    from c t have lc: "length (np_transpose v ! c) = length v" by simp
    from i c t have "P ! i ! c = dot (a ! i) (np_transpose v ! c)" by (simp add: P_def)
    also have "\<dots> = (\<Sum>t < length (a ! i). a ! i ! t * np_transpose v ! c ! t)"
      using la lc by (intro dot_sum) simp
    also have "\<dots> = (\<Sum>t < length v. a ! i ! t * v ! t ! c)"
      using la c t by (intro sum.cong) simp_all
    finally show "P ! i ! c = (\<Sum>t < length v. a ! i ! t * v ! t ! c)" .
  qed
  with P lenP show ?thesis by (intro exI [of _ P]) simp
qed

text \<open>\<^verbatim>\<open>np.mean\<close> of a matrix is one number: the sum of all entries over their count.\<close>

lemma sum_list_concat_rect:
  "sum_list (concat (a :: matrix)) = (\<Sum>i < length a. sum_list (a ! i))"
proof -
  have "sum_list (concat a) = sum_list (map sum_list a)" by (induction a) simp_all
  also have "\<dots> = (\<Sum>i = 0..<length (map sum_list a). map sum_list a ! i)"
    by (rule sum_list_sum_nth)
  also have "\<dots> = (\<Sum>i < length a. sum_list (a ! i))"
    by (intro sum.cong) (auto simp: lessThan_atLeast0)
  finally show ?thesis .
qed

lemma np_mean_scalar:
  assumes "\<forall>r \<in> set a. length r = p"
  shows "np_mean a = (\<Sum>i < length a. \<Sum>t < p. a ! i ! t) / real (length a * p)"
proof -
  have "sum_list (a ! i) = (\<Sum>t < p. a ! i ! t)" if "i < length a" for i
    using that assms by (simp add: sum_list_sum_nth lessThan_atLeast0)
  then have "sum_list (concat a) = (\<Sum>i < length a. \<Sum>t < p. a ! i ! t)"
    by (simp add: sum_list_concat_rect)
  moreover from assms have "length (concat a) = length a * p"
    by (rule length_concat_rect)
  ultimately show ?thesis by (simp only: np_mean_def)
qed

section \<open>Reusing the stored basis\<close>

lemma doPCA_basis_reuse:
  "np_size (eigenvector m) \<noteq> 0 \<Longrightarrow> doPCA_basis eigh fv m d = Inr (eigenvector m, m)"
  by (simp add: doPCA_basis_def)

lemma doPCA_reuse:
  "np_size (eigenvector m) \<noteq> 0 \<Longrightarrow>
   doPCA eigh fv m d = (doPCA_project fv (eigenvector m) (noise_dim m) d, m)"
  by (simp add: doPCA_def doPCA_basis_reuse)

lemma reduce_dimensions_reuse:
  "np_size (eigenvector m) \<noteq> 0 \<Longrightarrow>
   reduce_dimensions eigh fv m =
     (case doPCA_project fv (eigenvector m) (noise_dim m) (noise_dim m) of
        Inl e \<Rightarrow> (Inl e, m)
      | Inr r \<Rightarrow> (doPCA_project r (eigenvector m) (noise_dim m) (dim_final m), m))"
  by (simp add: reduce_dimensions_def doPCA_reuse split: sum.splits)

lemma load_test_page_reuse:
  "np_size (eigenvector m) \<noteq> 0 \<Longrightarrow>
   load_test_page load_char_images eigh page_name m =
     reduce_dimensions eigh (map (pad_image (bbox_size m)) (load_char_images page_name None)) m"
  by (simp add: load_test_page_def images_to_feature_vectors_def)

lemma list_all_sub_scalar:
  "list_all (\<lambda>r. length r = n) (sub_scalar a x) = list_all (\<lambda>r. length r = n) a"
  by (simp add: sub_scalar_def list_all_iff)

lemma doPCA_project_ok:
  assumes "list_all (\<lambda>r. length r = length v) fv"
  shows "\<exists>r. doPCA_project fv v nd d = Inr r"
proof -
  let ?c = "sub_scalar fv (np_mean fv)"
  let ?p = "map (\<lambda>r. map (dot r) (np_transpose v)) ?c"
  from assms have p: "np_dot ?c v = Inr ?p"
    by (simp add: np_dot_ok list_all_sub_scalar)
  have "list_all (\<lambda>r. length r = length (np_transpose v)) ?p"
    by (simp add: list_all_iff)
  then have "np_dot ?p (np_transpose v) = Inr (map (\<lambda>r. map (dot r) (np_transpose (np_transpose v))) ?p)"
    by (rule np_dot_ok)
  with p show ?thesis
    by (simp add: doPCA_project_def)
qed

text \<open>
  Claim C1. The stored basis is non-empty when it has entries, which is the test
  \<^verbatim>\<open>v.size == 0\<close> of the code. For every such model a call of \<^verbatim>\<open>doPCA\<close> takes the
  stored basis as it is and leaves the model, and so its \<^verbatim>\<open>'eigenvector'\<close> field,
  unchanged; the same holds for \<^verbatim>\<open>reduce_dimensions\<close> and \<^verbatim>\<open>load_test_page\<close>.
  No covariance matrix is computed and \<^verbatim>\<open>eigh\<close> is not called: the basis stage does not
  depend on the batch, and the calls give the same result for any two eigensolvers. Taking
  the frozen basis is not an error, and the whole call returns a value whenever the rows of
  the batch are as long as the basis is high.
\<close>

theorem frozen_basis_is_reused:
  assumes "np_size (eigenvector m) \<noteq> 0"
  shows "doPCA_basis eigh fv m d = Inr (eigenvector m, m)
       \<and> snd (doPCA eigh fv m d) = m
       \<and> snd (reduce_dimensions eigh fv m) = m
       \<and> snd (load_test_page load_char_images eigh page_name m) = m
       \<and> eigenvector (snd (doPCA eigh fv m d)) = eigenvector m
       \<and> doPCA eigh fv m d = doPCA eigh' fv m d
       \<and> reduce_dimensions eigh fv m = reduce_dimensions eigh' fv m
       \<and> load_test_page load_char_images eigh page_name m
           = load_test_page load_char_images eigh' page_name m
       \<and> (list_all (\<lambda>r. length r = length (eigenvector m)) fv
            \<longrightarrow> (\<exists>r. doPCA eigh fv m d = (Inr r, m)))"
proof -
  have "list_all (\<lambda>r. length r = length (eigenvector m)) fv
          \<Longrightarrow> \<exists>r. doPCA eigh fv m d = (Inr r, m)"
    using doPCA_project_ok [of "eigenvector m" fv "noise_dim m" d] assms
    by (auto simp: doPCA_reuse)
  moreover have "snd (reduce_dimensions eigh fv m) = m"
    using assms by (simp add: reduce_dimensions_reuse split: sum.splits)
  moreover have "reduce_dimensions eigh fv m = reduce_dimensions eigh' fv m" for fv
    using assms by (simp add: reduce_dimensions_reuse)
  moreover have "snd (load_test_page load_char_images eigh page_name m) = m"
    using assms by (simp add: load_test_page_reuse reduce_dimensions_reuse split: sum.splits)
  ultimately show ?thesis
    using assms by (simp add: doPCA_basis_reuse doPCA_reuse load_test_page_reuse)
qed

theorem frozen_basis_is_reused_witness:
  "np_size (eigenvector ex_model) \<noteq> 0
   \<and> list_all (\<lambda>r. length r = length (eigenvector ex_model)) [[1, 3], [5, 7]]
   \<and> doPCA no_eigh [[1, 3], [5, 7]] ex_model 50 = (Inr [[1, 4], [5, 4]], ex_model)
   \<and> eigenvector (snd (doPCA no_eigh [[1, 3], [5, 7]] ex_model 50)) = [[1], [0]]
   \<and> snd (reduce_dimensions no_eigh [[1, 3], [5, 7]] ex_model) = ex_model"
proof -
  have h: "np_size (eigenvector ex_model) \<noteq> 0"
    by (simp add: ex_model_def np_size_def)
  have t: "snd (reduce_dimensions no_eigh [[1, 3], [5, 7]] ex_model) = ex_model"
    by (rule frozen_basis_is_reused [OF h, THEN conjunct2, THEN conjunct2, THEN conjunct1])
  have "doPCA no_eigh [[1, 3], [5, 7]] ex_model 50 = (Inr [[1, 4], [5, 4]], ex_model)"
    by (simp add: ex_model_def np_size_def doPCA_def doPCA_basis_def doPCA_project_def
        np_dot_def sub_scalar_def add_scalar_def np_mean_def dot_def Let_def)
  moreover have "eigenvector ex_model = [[1], [0]]"
    by (simp add: ex_model_def)
  ultimately show ?thesis
    using h t by simp
qed

section \<open>The projection step\<close>

lemma doPCA_project_entries:
  assumes "v \<noteq> []" "\<forall>r \<in> set v. length r = k" "0 < k" "\<forall>r \<in> set fv. length r = length v"
  shows "\<exists>P R. length P = length fv
           \<and> (\<forall>i < length fv. length (P ! i) = k
                 \<and> (\<forall>c < k. P ! i ! c = (\<Sum>t < length v. (fv ! i ! t - np_mean fv) * v ! t ! c)))
           \<and> length R = length fv
           \<and> (\<forall>i < length fv. length (R ! i) = length v
                 \<and> (\<forall>t < length v. R ! i ! t = (\<Sum>c < k. P ! i ! c * v ! t ! c) + np_mean fv))
           \<and> doPCA_project fv v nd d = Inr (if d = nd then R else P)"
proof -
  define mu where "mu = np_mean fv"
  define A where "A = sub_scalar fv mu"
  have lenA: "length A = length fv" by (simp add: A_def sub_scalar_def)
  have rowA: "\<forall>r \<in> set A. length r = length v"
    using assms(4) by (auto simp: A_def sub_scalar_def)
  have entA: "A ! i ! t = fv ! i ! t - mu" if "i < length fv" "t < length v" for i t
    using that assms(4) by (simp add: A_def sub_scalar_def)
  from np_dot_entries [OF assms(1,2) rowA] obtain P where P: "np_dot A v = Inr P"
    "length P = length A"
    "\<forall>i < length A. length (P ! i) = k
        \<and> (\<forall>c < k. P ! i ! c = (\<Sum>t < length v. A ! i ! t * v ! t ! c))"
    by blast
  have entP: "P ! i ! c = (\<Sum>t < length v. (fv ! i ! t - mu) * v ! t ! c)"
    if "i < length fv" "c < k" for i c
  proof -
    from that P(3) lenA have "P ! i ! c = (\<Sum>t < length v. A ! i ! t * v ! t ! c)" by simp
    also have "\<dots> = (\<Sum>t < length v. (fv ! i ! t - mu) * v ! t ! c)"
      using that by (intro sum.cong) (simp_all add: entA)
    finally show ?thesis .
  qed
  note t = np_transpose_rect [OF assms(1,2)]
  from t assms(3) have ne: "np_transpose v \<noteq> []" by auto
  from t have rt: "\<forall>c \<in> set (np_transpose v). length c = length v" by simp
  have rowP: "\<forall>r \<in> set P. length r = length (np_transpose v)"
  proof
    fix r assume "r \<in> set P"
    then obtain i where "i < length P" "r = P ! i" by (auto simp: in_set_conv_nth)
    with P(2,3) t show "length r = length (np_transpose v)" by simp
  qed
  from np_dot_entries [OF ne rt rowP] obtain R0 where R0: "np_dot P (np_transpose v) = Inr R0"
    "length R0 = length P"
    "\<forall>i < length P. length (R0 ! i) = length v
        \<and> (\<forall>c < length v. R0 ! i ! c
              = (\<Sum>t < length (np_transpose v). P ! i ! t * np_transpose v ! t ! c))"
    by blast
  define R where "R = add_scalar R0 mu"
  have lenR: "length R = length fv" using R0(2) P(2) lenA by (simp add: R_def add_scalar_def)
  have rowR: "length (R ! i) = length v" if "i < length fv" for i
    using that R0(2,3) P(2) lenA by (simp add: R_def add_scalar_def)
  have entR: "R ! i ! c = (\<Sum>t < k. P ! i ! t * v ! c ! t) + mu"
    if "i < length fv" "c < length v" for i c
  proof -
    from that R0(2,3) P(2) lenA have "R ! i ! c = R0 ! i ! c + mu"
      by (simp add: R_def add_scalar_def)
    also from that R0(3) P(2) lenA
    have "R0 ! i ! c = (\<Sum>t < length (np_transpose v). P ! i ! t * np_transpose v ! t ! c)"
      by simp
    also have "\<dots> = (\<Sum>t < k. P ! i ! t * v ! c ! t)"
      using t that by (intro sum.cong) simp_all
    finally show ?thesis .
  qed
  have proj: "doPCA_project fv v nd d = Inr (if d = nd then R else P)"
    using P(1) R0(1) by (simp add: doPCA_project_def A_def mu_def R_def)
  show ?thesis
  proof (rule exI [of _ P], rule exI [of _ R], intro conjI)
    show "length P = length fv" using P(2) lenA by simp
    show "length R = length fv" by (rule lenR)
    show "doPCA_project fv v nd d = Inr (if d = nd then R else P)" by (rule proj)
    show "\<forall>i < length fv. length (P ! i) = k
            \<and> (\<forall>c < k. P ! i ! c = (\<Sum>t < length v. (fv ! i ! t - np_mean fv) * v ! t ! c))"
      using P(3) lenA entP by (simp add: mu_def)
    show "\<forall>i < length fv. length (R ! i) = length v
            \<and> (\<forall>t < length v. R ! i ! t = (\<Sum>c < k. P ! i ! c * v ! t ! c) + np_mean fv)"
      using rowR entR by (simp add: mu_def)
  qed
qed

text \<open>
  A call of \<^verbatim>\<open>doPCA\<close> changes neither dimension of the model, so every model that
  training returns has the noise-reduction dimension 50 and the final dimension 10: the
  two dimensions of a model differ.
\<close>

lemma doPCA_keeps_dims:
  "noise_dim (snd (doPCA eigh fv m d)) = noise_dim m
   \<and> dim_final (snd (doPCA eigh fv m d)) = dim_final m"
  by (auto simp: doPCA_def doPCA_basis_def Let_def split: cov_result.splits sum.splits prod.splits)

lemma reduce_dimensions_keeps_dims:
  "noise_dim (snd (reduce_dimensions eigh fv m)) = noise_dim m
   \<and> dim_final (snd (reduce_dimensions eigh fv m)) = dim_final m"
proof (cases "doPCA eigh fv m (noise_dim m)")
  case (Pair r m1)
  with doPCA_keeps_dims [of eigh fv m "noise_dim m"]
  have m1: "noise_dim m1 = noise_dim m" "dim_final m1 = dim_final m" by simp_all
  show ?thesis
  proof (cases r)
    case (Inl e)
    with Pair m1 show ?thesis by (simp add: reduce_dimensions_def)
  next
    case (Inr rec)
    with Pair m1 doPCA_keeps_dims [of eigh rec m1 "dim_final m"] show ?thesis
      by (simp add: reduce_dimensions_def)
  qed
qed

lemma trained_model_dims:
  fixes m :: "'l model"
  assumes "process_training_data load_char_images load_labels eigh train_page_names = Inr m"
  shows "noise_dim m = 50 \<and> dim_final m = 10 \<and> noise_dim m \<noteq> dim_final m"
proof -
  define imgs where
    "imgs = fold (\<lambda>page_name images. load_char_images page_name (Some images)) train_page_names []"
  define labs where "labs = fold load_labels train_page_names []"
  from assms obtain bbox fvs where b: "get_bounding_box_size imgs = Inr bbox"
    and f: "images_to_feature_vectors imgs (Some bbox) = Inr fvs"
    by (auto simp: process_training_data_def imgs_def Let_def split: sum.splits)
  define m0 :: "'l model" where "m0 = \<lparr>labels_train = labs, bbox_size = bbox,
                         eigenvector = [], noise_dim = 50, dim_final = 10,
                         fvectors_train = None\<rparr>"
  from assms b f obtain r m1 where r: "reduce_dimensions eigh fvs m0 = (Inr r, m1)"
    and m: "m = m1\<lparr>fvectors_train := Some r\<rparr>"
    by (auto simp: process_training_data_def imgs_def labs_def m0_def Let_def
        split: sum.splits prod.splits)
  from reduce_dimensions_keeps_dims [of eigh fvs m0] r
  have "noise_dim m1 = 50" "dim_final m1 = 10" by (simp_all add: m0_def)
  with m show ?thesis by simp
qed

text \<open>
  Claim C3. Let \<open>v\<close> be the basis that the call uses, stored or freshly computed, with
  \<open>k\<close> columns and as many rows as the batch has columns, in a model whose two
  dimensions differ. The projection step subtracts from every entry of the batch one
  scalar, the mean of all entries of the batch (not a mean per column), and multiplies by
  the basis, which gives the projection \<open>P\<close>. When \<open>d\<close> equals the noise-reduction
  dimension of the model the call returns the reconstruction \<open>R\<close>: the projection times
  the transposed basis plus the same scalar mean, at the full length of the input rows.
  When \<open>d\<close> equals the final dimension of the model the call returns the projection
  directly. The projection has one column per column of the basis, so it is
  \<open>d\<close>-dimensional for a basis of \<open>d\<close> columns, which is what the eigensolver is
  asked for and what training stores.
\<close>

theorem doPCA_projection_step:
  assumes "doPCA_basis eigh fv m d = Inr (v, m')"
    and "v \<noteq> []" "\<forall>r \<in> set v. length r = k" "0 < k" "\<forall>r \<in> set fv. length r = length v"
    and "noise_dim m \<noteq> dim_final m"
  shows "\<exists>P R. np_mean fv = (\<Sum>i < length fv. \<Sum>t < length v. fv ! i ! t) / real (length fv * length v)
           \<and> length P = length fv
           \<and> (\<forall>i < length fv. length (P ! i) = k
                 \<and> (\<forall>c < k. P ! i ! c = (\<Sum>t < length v. (fv ! i ! t - np_mean fv) * v ! t ! c)))
           \<and> length R = length fv
           \<and> (\<forall>i < length fv. length (R ! i) = length v
                 \<and> (\<forall>t < length v. R ! i ! t = (\<Sum>c < k. P ! i ! c * v ! t ! c) + np_mean fv))
           \<and> (d = noise_dim m \<longrightarrow> fst (doPCA eigh fv m d) = Inr R)
           \<and> (d = dim_final m \<longrightarrow> fst (doPCA eigh fv m d) = Inr P)
           \<and> (int k = d \<longrightarrow> (\<forall>i < length fv. int (length (P ! i)) = d))"
proof -
  from assms(1) have fst: "fst (doPCA eigh fv m d) = doPCA_project fv v (noise_dim m) d"
    by (simp add: doPCA_def)
  note mean = np_mean_scalar [OF assms(5)]
  from doPCA_project_entries [OF assms(2-5), of "noise_dim m" d]
  obtain P R where PR: "length P = length fv"
    "\<forall>i < length fv. length (P ! i) = k
        \<and> (\<forall>c < k. P ! i ! c = (\<Sum>t < length v. (fv ! i ! t - np_mean fv) * v ! t ! c))"
    "length R = length fv"
    "\<forall>i < length fv. length (R ! i) = length v
        \<and> (\<forall>t < length v. R ! i ! t = (\<Sum>c < k. P ! i ! c * v ! t ! c) + np_mean fv)"
    "doPCA_project fv v (noise_dim m) d = Inr (if d = noise_dim m then R else P)"
    by blast
  from fst PR(5) have res: "fst (doPCA eigh fv m d) = Inr (if d = noise_dim m then R else P)"
    by (simp only:)
  have noise: "d = noise_dim m \<longrightarrow> fst (doPCA eigh fv m d) = Inr R"
    using res by auto
  have final: "d = dim_final m \<longrightarrow> fst (doPCA eigh fv m d) = Inr P"
    using res assms(6) by auto
  have dimd: "int k = d \<longrightarrow> (\<forall>i < length fv. int (length (P ! i)) = d)"
    using PR(2) by auto
  show ?thesis
    by (rule exI [of _ P], rule exI [of _ R], intro conjI mean PR(1-4) noise final dimd)
qed

theorem doPCA_projection_step_witness:
  "doPCA_basis no_eigh ex_batch ex_stored 1 = Inr ([[1], [0]], ex_stored)
   \<and> doPCA_basis no_eigh ex_batch ex_stored 2 = Inr ([[1], [0]], ex_stored)
   \<and> list_all (\<lambda>r. length r = 1) [[1], [0::real]]
   \<and> list_all (\<lambda>r. length r = length [[1], [0::real]]) ex_batch
   \<and> noise_dim ex_stored = 2 \<and> dim_final ex_stored = 1
   \<and> np_mean ex_batch = 1 / 2
   \<and> fst (doPCA no_eigh ex_batch ex_stored 1) = Inr [[- 1 / 2], [3 / 2]]
   \<and> fst (doPCA no_eigh ex_batch ex_stored 2) = Inr [[0, 1 / 2], [2, 1 / 2]]"
proof -
  have dims: "noise_dim ex_stored = 2" "dim_final ex_stored = 1"
    "eigenvector ex_stored = [[1], [0]]"
    by (simp_all add: ex_stored_def)
  have ne: "np_size (eigenvector ex_stored) \<noteq> 0" by (simp add: dims np_size_def)
  have h1: "doPCA_basis no_eigh ex_batch ex_stored d = Inr ([[1], [0]], ex_stored)" for d
    using doPCA_basis_reuse [OF ne, of no_eigh ex_batch d] by (simp add: dims)
  have h2: "[[1], [0::real]] \<noteq> []" by simp
  have h3: "\<forall>r \<in> set [[1], [0::real]]. length r = 1" by simp
  have h4: "(0::nat) < 1" by simp
  have h5: "\<forall>r \<in> set ex_batch. length r = length [[1], [0::real]]"
    by (simp add: ex_batch_def)
  have h6: "noise_dim ex_stored \<noteq> dim_final ex_stored" by (simp add: dims)
  from doPCA_projection_step [OF h1 h2 h3 h4 h5 h6, of 1]
  obtain P R where "fst (doPCA no_eigh ex_batch ex_stored 1) = Inr P"
    "\<forall>i < length ex_batch. int (length (P ! i)) = 1"
    by (auto simp: dims)
  moreover have "doPCA_project ex_batch [[1], [0]] 2 1 = Inr [[- 1 / 2], [3 / 2]]"
    by (simp add: doPCA_project_def np_dot_def sub_scalar_def np_mean_def dot_def ex_batch_def)
  then have p: "fst (doPCA no_eigh ex_batch ex_stored 1) = Inr [[- 1 / 2], [3 / 2]]"
    by (simp add: doPCA_def h1 dims)
  moreover have "doPCA_project ex_batch [[1], [0]] 2 2 = Inr [[0, 1 / 2], [2, 1 / 2]]"
    by (simp add: doPCA_project_def np_dot_def sub_scalar_def add_scalar_def np_mean_def
        dot_def ex_batch_def)
  then have r: "fst (doPCA no_eigh ex_batch ex_stored 2) = Inr [[0, 1 / 2], [2, 1 / 2]]"
    by (simp add: doPCA_def h1 dims)
  moreover have "np_mean ex_batch = 1 / 2" by (simp add: np_mean_def ex_batch_def)
  ultimately show ?thesis
    using h1 [of 1] h1 [of 2] dims by (simp add: ex_batch_def)
qed

section \<open>Fitting the basis\<close>

text \<open>
  The covariance matrix of a batch with at least two rows and two columns, entry by entry,
  and what reversing the columns does to an eigendecomposition.
\<close>

lemma np_cov_entries:
  assumes "2 \<le> length fv" "\<forall>r \<in> set fv. length r = p" "2 \<le> p"
  shows "\<exists>C. np_cov_rowvar0 fv = Cov2 C \<and> length C = p
           \<and> (\<forall>j < p. length (C ! j) = p
                 \<and> (\<forall>k < p. C ! j ! k
                       = (\<Sum>i < length fv. (fv ! i ! j - col_mean fv j) * (fv ! i ! k - col_mean fv k))
                           / (real (length fv) - 1)))"
proof -
  define n where "n = length fv"
  define X where "X = np_transpose fv"
  define avg where "avg = map (\<lambda>r. sum_list r / real n) X"
  define Xc where "Xc = map2 (\<lambda>r a. map (\<lambda>x. x - a) r) X avg"
  define C where "C = map (\<lambda>r. map (\<lambda>s. dot r s * (1 / (real n - 1))) Xc) Xc"
  from assms(1) have ne: "fv \<noteq> []" by auto
  with assms(2) have nc: "ncols fv = p" by (cases fv) (simp_all add: ncols_def)
  from assms(1,3) nc have cov: "np_cov_rowvar0 fv = Cov2 C"
    by (simp add: np_cov_rowvar0_def Let_def C_def Xc_def avg_def X_def n_def)
  note t = np_transpose_rect [OF ne assms(2)]
  have lenX: "length X = p" using t by (simp add: X_def)
  have rowX: "length (X ! j) = n" if "j < p" for j
    using that t lenX by (simp add: X_def n_def)
  have entX: "X ! j ! i = fv ! i ! j" if "j < p" "i < n" for i j
    using that t by (simp add: X_def n_def)
  have avg: "avg ! j = col_mean fv j" if "j < p" for j
  proof -
    have "sum_list (X ! j) = (\<Sum>i < n. X ! j ! i)"
      using rowX [OF that] by (simp add: sum_list_sum_nth lessThan_atLeast0)
    also have "\<dots> = (\<Sum>i < n. fv ! i ! j)"
      using that by (intro sum.cong) (simp_all add: entX)
    finally show ?thesis
      using that lenX by (simp add: avg_def col_mean_def n_def)
  qed
  have lenXc: "length Xc = p" using lenX by (simp add: Xc_def avg_def)
  have rowXc: "length (Xc ! j) = n" if "j < p" for j
    using that lenX rowX by (simp add: Xc_def avg_def)
  have entXc: "Xc ! j ! i = fv ! i ! j - col_mean fv j" if "j < p" "i < n" for i j
  proof -
    from that lenX have "Xc ! j = map (\<lambda>x. x - avg ! j) (X ! j)"
      by (simp add: Xc_def avg_def)
    with that rowX [OF that(1)] show ?thesis
      by (simp add: entX avg)
  qed
  have entC: "C ! j ! k
       = (\<Sum>i < n. (fv ! i ! j - col_mean fv j) * (fv ! i ! k - col_mean fv k)) / (real n - 1)"
    if "j < p" "k < p" for j k
  proof -
    from that lenXc have "C ! j ! k = dot (Xc ! j) (Xc ! k) * (1 / (real n - 1))"
      by (simp add: C_def)
    also have "dot (Xc ! j) (Xc ! k) = (\<Sum>i < length (Xc ! j). Xc ! j ! i * Xc ! k ! i)"
      using that rowXc by (intro dot_sum) simp
    also have "\<dots> = (\<Sum>i < n. (fv ! i ! j - col_mean fv j) * (fv ! i ! k - col_mean fv k))"
      using that rowXc by (intro sum.cong) (simp_all add: entXc)
    finally show ?thesis by simp
  qed
  have lenC: "length C = p" using lenXc by (simp add: C_def)
  have rowC: "length (C ! j) = p" if "j < p" for j
    using that lenXc by (simp add: C_def)
  show ?thesis
  proof (rule exI [of _ C], intro conjI)
    show "np_cov_rowvar0 fv = Cov2 C" by (rule cov)
    show "length C = p" by (rule lenC)
    show "\<forall>j < p. length (C ! j) = p
            \<and> (\<forall>k < p. C ! j ! k
                  = (\<Sum>i < length fv. (fv ! i ! j - col_mean fv j) * (fv ! i ! k - col_mean fv k))
                      / (real (length fv) - 1))"
      using rowC entC by (simp add: n_def)
  qed
qed

lemma column_fliplr:
  assumes "\<forall>r \<in> set v. length r = n" "c < n"
  shows "column (np_fliplr v) c = column v (n - 1 - c)"
proof -
  have "rev r ! c = r ! (n - 1 - c)" if "r \<in> set v" for r
    using that assms by (simp add: rev_nth)
  then show ?thesis
    by (simp add: column_def np_fliplr_def)
qed

lemma eigenpairs_fliplr:
  assumes "eigenpairs a w v"
  shows "eigenpairs a (rev w) (np_fliplr v)"
proof -
  from assms have rows: "\<forall>r \<in> set v. length r = length w"
    and eig: "\<forall>c < length w. mat_vec a (column v c) = map ((*) (w ! c)) (column v c)"
    by (simp_all add: eigenpairs_def list_all_iff)
  have "mat_vec a (column (np_fliplr v) c) = map ((*) (rev w ! c)) (column (np_fliplr v) c)"
    if "c < length w" for c
  proof -
    from that have "length w - 1 - c < length w" by simp
    with eig have "mat_vec a (column v (length w - 1 - c))
        = map ((*) (w ! (length w - 1 - c))) (column v (length w - 1 - c))" by blast
    moreover from that have "rev w ! c = w ! (length w - 1 - c)" by (simp add: rev_nth)
    ultimately show ?thesis
      using column_fliplr [OF rows that] by simp
  qed
  moreover from rows have "\<forall>r \<in> set (np_fliplr v). length r = length (rev w)"
    by (simp add: np_fliplr_def)
  ultimately show ?thesis
    by (simp add: eigenpairs_def list_all_iff)
qed

text \<open>The covariance matrix of the example batch.\<close>

lemma ex_cov: "np_cov_rowvar0 ex_batch = Cov2 [[2, 0], [0, 0]]"
  by (simp add: ex_batch_def np_cov_rowvar0_def ncols_def dot_def Let_def)

text \<open>
  Claim C4. When the stored basis is empty, \<^verbatim>\<open>doPCA\<close> computes the covariance matrix of
  the batch with the rows as observations and the columns as features (entry \<open>(j, k)\<close>
  sums, over the rows, the products of the centred entries of columns \<open>j\<close> and \<open>k\<close> and
  divides by the number of rows less one), asks the eigensolver for the eigenvalues with
  the indices \<open>N - d\<close> to \<open>N - 1\<close>, which are the \<open>d\<close> largest of the \<open>N\<close>, and
  reverses the columns it gets: if the solver returned the eigenvalues in ascending order
  with their eigenvectors as columns, the basis has the eigenvectors in descending order of
  eigenvalue. The basis is written to the model if and only if \<open>d\<close> is the final
  dimension of the model; otherwise the model is unchanged.
\<close>

theorem doPCA_fits_empty_basis:
  assumes "np_size (eigenvector m) = 0"
    and "np_cov_rowvar0 fv = Cov2 covx"
    and "eigh covx (int (length covx) - d) (int (length covx) - 1) = Inr (w, v)"
  shows "doPCA_basis eigh fv m d
           = Inr (np_fliplr v, if d = dim_final m then m\<lparr>eigenvector := np_fliplr v\<rparr> else m)
       \<and> snd (doPCA eigh fv m d) = (if d = dim_final m then m\<lparr>eigenvector := np_fliplr v\<rparr> else m)
       \<and> (2 \<le> length fv \<and> 2 \<le> p \<and> list_all (\<lambda>r. length r = p) fv \<longrightarrow>
            length covx = p
            \<and> (\<forall>j < p. \<forall>k < p. covx ! j ! k
                  = (\<Sum>i < length fv. (fv ! i ! j - col_mean fv j) * (fv ! i ! k - col_mean fv k))
                      / (real (length fv) - 1)))
       \<and> (sorted w \<and> eigenpairs covx w v \<longrightarrow>
            sorted_wrt (\<ge>) (rev w) \<and> eigenpairs covx (rev w) (np_fliplr v))"
proof -
  have b: "doPCA_basis eigh fv m d
           = Inr (np_fliplr v, if d = dim_final m then m\<lparr>eigenvector := np_fliplr v\<rparr> else m)"
    using assms by (simp add: doPCA_basis_def Let_def)
  then have s: "snd (doPCA eigh fv m d)
                = (if d = dim_final m then m\<lparr>eigenvector := np_fliplr v\<rparr> else m)"
    by (simp add: doPCA_def)
  have c: "length covx = p
            \<and> (\<forall>j < p. \<forall>k < p. covx ! j ! k
                  = (\<Sum>i < length fv. (fv ! i ! j - col_mean fv j) * (fv ! i ! k - col_mean fv k))
                      / (real (length fv) - 1))"
    if "2 \<le> length fv" "2 \<le> p" "list_all (\<lambda>r. length r = p) fv"
  proof -
    from that(3) have "\<forall>r \<in> set fv. length r = p" by (simp add: list_all_iff)
    from np_cov_entries [OF that(1) this that(2)] assms(2) show ?thesis by auto
  qed
  have e: "sorted_wrt (\<ge>) (rev w) \<and> eigenpairs covx (rev w) (np_fliplr v)"
    if "sorted w" "eigenpairs covx w v"
    using that by (simp add: sorted_wrt_rev eigenpairs_fliplr)
  from b s c e show ?thesis by blast
qed

theorem doPCA_fits_empty_basis_witness:
  "np_size (eigenvector ex_untrained) = 0
   \<and> np_cov_rowvar0 ex_batch = Cov2 [[2, 0], [0, 0]]
   \<and> ex_eigh [[2, 0], [0, 0]] (int (length [[2, 0], [0, 0::real]]) - 1)
        (int (length [[2, 0], [0, 0::real]]) - 1) = Inr ([2], [[1], [0]])
   \<and> ex_eigh [[2, 0], [0, 0]] (int (length [[2, 0], [0, 0::real]]) - 2)
        (int (length [[2, 0], [0, 0::real]]) - 1) = Inr ([0, 2], [[0, 1], [1, 0]])
   \<and> 2 \<le> length ex_batch \<and> list_all (\<lambda>r. length r = 2) ex_batch
   \<and> sorted [0, 2::real] \<and> eigenpairs [[2, 0], [0, 0]] [0, 2] [[0, 1], [1, 0]]
   \<and> dim_final ex_untrained = 1 \<and> noise_dim ex_untrained = 2
   \<and> snd (doPCA ex_eigh ex_batch ex_untrained 1) = ex_untrained\<lparr>eigenvector := [[1], [0]]\<rparr>
   \<and> snd (doPCA ex_eigh ex_batch ex_untrained 2) = ex_untrained
   \<and> doPCA_basis ex_eigh ex_batch ex_untrained 2 = Inr ([[1, 0], [0, 1]], ex_untrained)
   \<and> eigenpairs [[2, 0], [0, 0]] [2, 0] [[1, 0], [0, 1]]"
proof -
  have h1: "np_size (eigenvector ex_untrained) = 0"
    by (simp add: ex_untrained_def np_size_def)
  have h2: "np_cov_rowvar0 ex_batch = Cov2 [[2, 0], [0, 0]]" by (rule ex_cov)
  have h3: "ex_eigh [[2, 0], [0, 0]] (int (length [[2, 0], [0, 0::real]]) - 1)
        (int (length [[2, 0], [0, 0::real]]) - 1) = Inr ([2], [[1], [0]])"
    by (simp add: ex_eigh_def)
  have h4: "ex_eigh [[2, 0], [0, 0]] (int (length [[2, 0], [0, 0::real]]) - 2)
        (int (length [[2, 0], [0, 0::real]]) - 1) = Inr ([0, 2], [[0, 1], [1, 0]])"
    by (simp add: ex_eigh_def)
  have d: "dim_final ex_untrained = 1" "noise_dim ex_untrained = 2"
    by (simp_all add: ex_untrained_def)
  have e: "sorted [0, 2::real]" "eigenpairs [[2, 0], [0, 0]] [0, 2] [[0, 1], [1, 0]]"
    by (simp_all add: eigenpairs_def mat_vec_def column_def dot_def upt_conv_Cons)
  have s: "2 \<le> length ex_batch" "list_all (\<lambda>r. length r = 2) ex_batch"
    by (simp_all add: ex_batch_def)
  note t1 = doPCA_fits_empty_basis [where eigh = ex_eigh and d = 1 and p = 2, OF h1 h2 h3]
  note t2 = doPCA_fits_empty_basis [where eigh = ex_eigh and d = 2 and p = 2, OF h1 h2 h4]
  from t1 have "snd (doPCA ex_eigh ex_batch ex_untrained 1)
                = ex_untrained\<lparr>eigenvector := [[1], [0]]\<rparr>"
    by (simp add: d np_fliplr_def)
  moreover from t2 have "snd (doPCA ex_eigh ex_batch ex_untrained 2) = ex_untrained"
    by (simp add: d)
  moreover from t2 have "doPCA_basis ex_eigh ex_batch ex_untrained 2
                         = Inr ([[1, 0], [0, 1]], ex_untrained)"
    by (simp add: d np_fliplr_def)
  moreover from t2 e have "eigenpairs [[2, 0], [0, 0]] [2, 0] [[1, 0], [0, 1]]"
    by (simp add: np_fliplr_def)
  ultimately show ?thesis
    using h1 h2 h3 h4 d e s by simp
qed

section \<open>Training and inference differ\<close>

text \<open>
  The covariance matrix of the example batch has the eigenvalues 0 and 2, and its unit
  eigenvectors are determined up to sign. Training reduces the batch with freshly computed
  bases; inference on the same batch, with the basis that training stored, gives another
  result, whatever signs the solver chose.
\<close>

lemma ex_training:
  assumes "s1 = 1 \<or> s1 = - 1" "s2 = 1 \<or> s2 = - 1" "s3 = 1 \<or> s3 = - 1"
    and "eigh [[2, 0], [0, 0]] 0 1 = Inr ([0, 2], [[0, s1], [s2, 0]])"
    and "eigh [[2, 0], [0, 0]] 1 1 = Inr ([2], [[s3], [0]])"
  shows "reduce_dimensions eigh ex_batch ex_untrained
         = (Inr [[- s3 / 2], [3 * s3 / 2]], ex_untrained\<lparr>eigenvector := [[s3], [0]]\<rparr>)"
proof -
  have dims: "noise_dim ex_untrained = 2" "dim_final ex_untrained = 1"
    "np_size (eigenvector ex_untrained) = 0"
    by (simp_all add: ex_untrained_def np_size_def)
  have b1: "doPCA_basis eigh ex_batch ex_untrained 2 = Inr ([[s1, 0], [0, s2]], ex_untrained)"
    using assms(4) by (simp add: doPCA_basis_def ex_cov dims np_fliplr_def Let_def)
  have r1: "doPCA_project ex_batch [[s1, 0], [0, s2]] 2 2 = Inr ex_batch"
    using assms(1,2)
    by (auto simp: doPCA_project_def np_dot_def np_mean_def sub_scalar_def add_scalar_def
        dot_def ex_batch_def)
  have b2: "doPCA_basis eigh ex_batch ex_untrained 1
            = Inr ([[s3], [0]], ex_untrained\<lparr>eigenvector := [[s3], [0]]\<rparr>)"
    using assms(5) by (simp add: doPCA_basis_def ex_cov dims np_fliplr_def Let_def)
  have r2: "doPCA_project ex_batch [[s3], [0]] 2 1 = Inr [[- s3 / 2], [3 * s3 / 2]]"
    by (simp add: doPCA_project_def np_dot_def np_mean_def sub_scalar_def dot_def ex_batch_def)
  show ?thesis
    by (simp add: reduce_dimensions_def doPCA_def dims b1 r1 b2 r2)
qed

lemma ex_inference:
  assumes "s3 = 1 \<or> s3 = - 1"
  shows "reduce_dimensions eigh ex_batch (ex_untrained\<lparr>eigenvector := [[s3], [0]]\<rparr>)
         = (Inr [[- 3 * s3 / 4], [5 * s3 / 4]], ex_untrained\<lparr>eigenvector := [[s3], [0]]\<rparr>)"
proof -
  let ?m = "ex_untrained\<lparr>eigenvector := [[s3], [0]]\<rparr>"
  have dims: "noise_dim ?m = 2" "dim_final ?m = 1" "eigenvector ?m = [[s3], [0]]"
    by (simp_all add: ex_untrained_def)
  have ne: "np_size (eigenvector ?m) \<noteq> 0" by (simp add: np_size_def)
  have r1: "doPCA_project ex_batch [[s3], [0]] 2 2 = Inr [[0, 1 / 2], [2, 1 / 2]]"
    using assms
    by (auto simp: doPCA_project_def np_dot_def np_mean_def sub_scalar_def add_scalar_def
        dot_def ex_batch_def)
  have r2: "doPCA_project [[0, 1 / 2], [2, 1 / 2]] [[s3], [0]] 2 1
            = Inr [[- 3 * s3 / 4], [5 * s3 / 4]]"
    by (simp add: doPCA_project_def np_dot_def np_mean_def sub_scalar_def dot_def)
  show ?thesis
    using reduce_dimensions_reuse [OF ne, of eigh ex_batch] by (simp add: dims r1 r2)
qed

lemma list2: "length xs = 2 \<Longrightarrow> \<exists>a b. xs = [a, b]"
  by (cases xs; cases "tl xs") auto

lemma list1: "length xs = 1 \<Longrightarrow> \<exists>a. xs = [a]"
  by (cases xs) auto

lemma ex_top_eigenvector:
  assumes "eigenpairs [[2, 0], [0, 0]] [2] v" "unit_columns v 1"
  shows "\<exists>s. (s = 1 \<or> s = - 1) \<and> v = [[s], [0]]"
proof -
  from assms(1) have rows: "\<forall>r \<in> set v. length r = 1"
    and eq: "mat_vec [[2, 0], [0, 0]] (column v 0) = map ((*) 2) (column v 0)"
    by (simp_all add: eigenpairs_def list_all_iff)
  from eq have "length (mat_vec [[2, 0], [0, 0]] (column v 0)) = length (map ((*) 2) (column v 0))"
    by simp
  then have "length v = 2" by (simp add: mat_vec_def column_def)
  then obtain r1 r2 where v: "v = [r1, r2]" using list2 by blast
  with rows obtain a b where r: "r1 = [a]" "r2 = [b]" using list1 [of r1] list1 [of r2] by auto
  from eq have "b = 0" by (simp add: v r mat_vec_def column_def dot_def)
  moreover from assms(2) have "a * a + b * b = 1"
    by (simp add: unit_columns_def v r column_def dot_def)
  ultimately have "a * a = 1" by simp
  then have "a = 1 \<or> a = - 1" by (simp add: square_eq_1_iff)
  with \<open>b = 0\<close> show ?thesis by (simp add: v r)
qed

lemma ex_all_eigenvectors:
  assumes "eigenpairs [[2, 0], [0, 0]] [0, 2] v" "unit_columns v 2"
  shows "\<exists>s1 s2. (s1 = 1 \<or> s1 = - 1) \<and> (s2 = 1 \<or> s2 = - 1) \<and> v = [[0, s1], [s2, 0]]"
proof -
  from assms(1) have rows: "\<forall>r \<in> set v. length r = 2"
    and eq0: "mat_vec [[2, 0], [0, 0]] (column v 0) = map ((*) 0) (column v 0)"
    and eq1: "mat_vec [[2, 0], [0, 0]] (column v 1) = map ((*) 2) (column v 1)"
    by (simp_all add: eigenpairs_def list_all_iff upt_conv_Cons)
  from eq0 have "length (mat_vec [[2, 0], [0, 0]] (column v 0)) = length (map ((*) 0) (column v 0))"
    by (simp only:)
  then have "length v = 2" by (simp add: mat_vec_def column_def)
  then obtain r1 r2 where v: "v = [r1, r2]" using list2 by blast
  with rows obtain a b c d where r: "r1 = [a, b]" "r2 = [c, d]"
    using list2 [of r1] list2 [of r2] by auto
  from eq0 have "a = 0" by (simp add: v r mat_vec_def column_def dot_def)
  moreover from eq1 have "d = 0" by (simp add: v r mat_vec_def column_def dot_def)
  moreover from assms(2) have "a * a + c * c = 1" "b * b + d * d = 1"
    by (simp_all add: unit_columns_def v r column_def dot_def upt_conv_Cons)
  ultimately have "c * c = 1" "b * b = 1" by simp_all
  then have "c = 1 \<or> c = - 1" "b = 1 \<or> b = - 1" by (simp_all add: square_eq_1_iff)
  with \<open>a = 0\<close> \<open>d = 0\<close> show ?thesis by (simp add: v r)
qed

text \<open>
  Claim C5. For every model whose stored basis is non-empty, both passes of
  \<^verbatim>\<open>reduce_dimensions\<close> multiply by that stored basis: the noise-reduction pass builds
  its reconstruction from the stored final-dimension basis and computes no basis of its
  own. Training and inference therefore transform the same input differently: on the
  example batch, for every eigensolver that answers with unit eigenvectors, training
  succeeds and stores the final-dimension basis, inference with the stored basis succeeds
  on the same batch, and the two results differ.
\<close>

theorem reduce_dimensions_reuses_stored_basis:
  "(np_size (eigenvector m) \<noteq> 0 \<longrightarrow>
      reduce_dimensions eigh fv m
        = (case doPCA_project fv (eigenvector m) (noise_dim m) (noise_dim m) of
             Inl e \<Rightarrow> (Inl e, m)
           | Inr r \<Rightarrow> (doPCA_project r (eigenvector m) (noise_dim m) (dim_final m), m)))
   \<and> (eigh' [[2, 0], [0, 0]] 0 1 = Inr ([0, 2], v2)
        \<and> eigenpairs [[2, 0], [0, 0]] [0, 2] v2 \<and> unit_columns v2 2
        \<and> eigh' [[2, 0], [0, 0]] 1 1 = Inr ([2], v1)
        \<and> eigenpairs [[2, 0], [0, 0]] [2] v1 \<and> unit_columns v1 1 \<longrightarrow>
       (\<exists>r_train r_test m'.
           reduce_dimensions eigh' ex_batch ex_untrained = (Inr r_train, m')
         \<and> eigenvector m' = v1 \<and> np_size (eigenvector m') \<noteq> 0
         \<and> reduce_dimensions eigh' ex_batch m' = (Inr r_test, m')
         \<and> r_train \<noteq> r_test))"
proof (intro conjI impI)
  assume "np_size (eigenvector m) \<noteq> 0"
  then show "reduce_dimensions eigh fv m
        = (case doPCA_project fv (eigenvector m) (noise_dim m) (noise_dim m) of
             Inl e \<Rightarrow> (Inl e, m)
           | Inr r \<Rightarrow> (doPCA_project r (eigenvector m) (noise_dim m) (dim_final m), m))"
    by (rule reduce_dimensions_reuse)
next
  assume a: "eigh' [[2, 0], [0, 0]] 0 1 = Inr ([0, 2], v2)
        \<and> eigenpairs [[2, 0], [0, 0]] [0, 2] v2 \<and> unit_columns v2 2
        \<and> eigh' [[2, 0], [0, 0]] 1 1 = Inr ([2], v1)
        \<and> eigenpairs [[2, 0], [0, 0]] [2] v1 \<and> unit_columns v1 1"
  then obtain s1 s2 where s12: "s1 = 1 \<or> s1 = - 1" "s2 = 1 \<or> s2 = - 1"
    and v2: "v2 = [[0, s1], [s2, 0]]"
    using ex_all_eigenvectors [of v2] by blast
  from a obtain s3 where s3: "s3 = 1 \<or> s3 = - 1" and v1: "v1 = [[s3], [0]]"
    using ex_top_eigenvector [of v1] by blast
  let ?m = "ex_untrained\<lparr>eigenvector := [[s3], [0]]\<rparr>"
  from a have e2: "eigh' [[2, 0], [0, 0]] 0 1 = Inr ([0, 2], [[0, s1], [s2, 0]])"
    and e1: "eigh' [[2, 0], [0, 0]] 1 1 = Inr ([2], [[s3], [0]])"
    by (simp_all add: v1 v2)
  have tr: "reduce_dimensions eigh' ex_batch ex_untrained = (Inr [[- s3 / 2], [3 * s3 / 2]], ?m)"
    using s12 s3 e2 e1 by (rule ex_training)
  have inf: "reduce_dimensions eigh' ex_batch ?m = (Inr [[- 3 * s3 / 4], [5 * s3 / 4]], ?m)"
    using s3 by (rule ex_inference)
  have ne: "[[- s3 / 2], [3 * s3 / 2]] \<noteq> [[- 3 * s3 / 4], [5 * s3 / 4]]"
    using s3 by auto
  have "eigenvector ?m = v1" "np_size (eigenvector ?m) \<noteq> 0"
    by (simp_all add: v1 np_size_def)
  with tr inf ne show "\<exists>r_train r_test m'.
           reduce_dimensions eigh' ex_batch ex_untrained = (Inr r_train, m')
         \<and> eigenvector m' = v1 \<and> np_size (eigenvector m') \<noteq> 0
         \<and> reduce_dimensions eigh' ex_batch m' = (Inr r_test, m')
         \<and> r_train \<noteq> r_test"
    by blast
qed

theorem reduce_dimensions_reuses_stored_basis_witness:
  "np_size (eigenvector ex_model) \<noteq> 0
   \<and> reduce_dimensions no_eigh [[1, 3], [5, 7]] ex_model = (Inr [[- 5 / 2], [3 / 2]], ex_model)
   \<and> np_cov_rowvar0 ex_batch = Cov2 [[2, 0], [0, 0]]
   \<and> ex_eigh [[2, 0], [0, 0]] 0 1 = Inr ([0, 2], [[0, 1], [1, 0]])
   \<and> eigenpairs [[2, 0], [0, 0]] [0, 2] [[0, 1], [1, 0]] \<and> unit_columns [[0, 1], [1, 0]] 2
   \<and> ex_eigh [[2, 0], [0, 0]] 1 1 = Inr ([2], [[1], [0]])
   \<and> eigenpairs [[2, 0], [0, 0]] [2] [[1], [0]] \<and> unit_columns [[1], [0]] 1
   \<and> reduce_dimensions ex_eigh ex_batch ex_untrained
        = (Inr [[- 1 / 2], [3 / 2]], ex_untrained\<lparr>eigenvector := [[1], [0]]\<rparr>)
   \<and> reduce_dimensions ex_eigh ex_batch (ex_untrained\<lparr>eigenvector := [[1], [0]]\<rparr>)
        = (Inr [[- 3 / 4], [5 / 4]], ex_untrained\<lparr>eigenvector := [[1], [0]]\<rparr>)"
proof -
  have h: "np_size (eigenvector ex_model) \<noteq> 0"
    by (simp add: ex_model_def np_size_def)
  have ev: "eigenvector ex_model = [[1], [0]]" "noise_dim ex_model = 50" "dim_final ex_model = 10"
    by (simp_all add: ex_model_def)
  have r1: "doPCA_project [[1, 3], [5, 7]] [[1], [0]] 50 50 = Inr [[1, 4], [5, 4]]"
    by (simp add: doPCA_project_def np_dot_def sub_scalar_def add_scalar_def np_mean_def dot_def)
  have r2: "doPCA_project [[1, 4], [5, 4]] [[1], [0]] 50 10 = Inr [[- 5 / 2], [3 / 2]]"
    by (simp add: doPCA_project_def np_dot_def sub_scalar_def np_mean_def dot_def)
  note t = reduce_dimensions_reuses_stored_basis [where m = ex_model and eigh = no_eigh
      and fv = "[[1, 3], [5, 7]]" and eigh' = ex_eigh and ?v2.0 = "[[0, 1], [1, 0]]"
      and ?v1.0 = "[[1], [0]]"]
  from t h have "reduce_dimensions no_eigh [[1, 3], [5, 7]] ex_model
      = (Inr [[- 5 / 2], [3 / 2]], ex_model)"
    by (simp add: ev r1 r2)
  moreover have e: "ex_eigh [[2, 0], [0, 0]] 0 1 = Inr ([0, 2], [[0, 1], [1, 0]])"
    "ex_eigh [[2, 0], [0, 0]] 1 1 = Inr ([2], [[1], [0]])"
    by (simp_all add: ex_eigh_def)
  moreover have p: "eigenpairs [[2, 0], [0, 0]] [0, 2] [[0, 1], [1, 0]]"
    "unit_columns [[0, 1], [1, 0]] 2"
    "eigenpairs [[2, 0], [0, 0]] [2] [[1], [0]]" "unit_columns [[1], [0]] 1"
    by (simp_all add: eigenpairs_def unit_columns_def mat_vec_def column_def dot_def upt_conv_Cons)
  moreover have "reduce_dimensions ex_eigh ex_batch ex_untrained
        = (Inr [[- 1 / 2], [3 / 2]], ex_untrained\<lparr>eigenvector := [[1], [0]]\<rparr>)"
    using ex_training [of 1 1 1 ex_eigh] e by simp
  moreover have "reduce_dimensions ex_eigh ex_batch (ex_untrained\<lparr>eigenvector := [[1], [0]]\<rparr>)
        = (Inr [[- 3 / 4], [5 / 4]], ex_untrained\<lparr>eigenvector := [[1], [0]]\<rparr>)"
    using ex_inference [of 1 ex_eigh] by simp
  ultimately show ?thesis
    using h ex_cov by simp
qed

section \<open>Nearest neighbour\<close>

text \<open>\<^verbatim>\<open>np.argmax\<close> returns the first index that holds the maximum.\<close>

lemma argmax_from_first_max:
  assumes "bi < length pre" "bv = pre ! bi" "\<forall>k < length pre. pre ! k \<le> bv"
    "\<forall>k < bi. pre ! k < bv"
  shows "argmax_from bi bv (length pre) ys < length (pre @ ys)
       \<and> (\<forall>k < length (pre @ ys). (pre @ ys) ! k \<le> (pre @ ys) ! argmax_from bi bv (length pre) ys)
       \<and> (\<forall>k < argmax_from bi bv (length pre) ys.
             (pre @ ys) ! k < (pre @ ys) ! argmax_from bi bv (length pre) ys)"
  using assms
proof (induction ys arbitrary: pre bi bv)
  case Nil
  then show ?case by simp
next
  case (Cons x ys)
  show ?case
  proof (cases "bv < x")
    case True
    have "length (pre @ [x]) = Suc (length pre)" by simp
    moreover have "length pre < length (pre @ [x])" by simp
    moreover have "x = (pre @ [x]) ! length pre" by simp
    moreover have "\<forall>k < length (pre @ [x]). (pre @ [x]) ! k \<le> x"
      using Cons.prems True by (auto simp: nth_append less_Suc_eq intro: less_imp_le order_trans)
    moreover have "\<forall>k < length pre. (pre @ [x]) ! k < x"
      using Cons.prems True by (auto simp: nth_append intro: le_less_trans)
    ultimately show ?thesis
      using Cons.IH [of "length pre" "pre @ [x]" x] True by simp
  next
    case False
    have "bi < length (pre @ [x])" using Cons.prems by simp
    moreover have "bv = (pre @ [x]) ! bi" using Cons.prems by (simp add: nth_append)
    moreover have "\<forall>k < length (pre @ [x]). (pre @ [x]) ! k \<le> bv"
      using Cons.prems False by (auto simp: nth_append less_Suc_eq)
    moreover have "\<forall>k < bi. (pre @ [x]) ! k < bv"
      using Cons.prems by (auto simp: nth_append)
    ultimately show ?thesis
      using Cons.IH [of bi "pre @ [x]" bv] False by simp
  qed
qed

lemma np_argmax_first_max:
  assumes "xs \<noteq> []"
  shows "\<exists>j. np_argmax xs = Inr j \<and> j < length xs \<and> (\<forall>k < length xs. xs ! k \<le> xs ! j)
           \<and> (\<forall>k < j. xs ! k < xs ! j)"
proof -
  from assms obtain x ys where xs: "xs = x # ys" by (cases xs) auto
  from argmax_from_first_max [of 0 "[x]" x ys] show ?thesis
    by (simp add: xs)
qed

lemma collect_map:
  "\<forall>x \<in> set xs. f x = Inr (g x) \<Longrightarrow> collect (map f xs) = Inr (map g xs)"
  by (induction xs) simp_all

text \<open>The similarity matrix and the labels that \<^verbatim>\<open>nearest_neighbour\<close> returns.\<close>

lemma row_norm_dot: "row_norm r = sqrt (dot r r)"
  by (simp add: row_norm_def dot_def)

lemma row_norm_nonzero_nonempty: "row_norm r \<noteq> 0 \<Longrightarrow> 0 < length r"
  by (cases r) (simp_all add: row_norm_def)

lemma cosine_matrix_eq:
  assumes "tr \<noteq> []" "\<forall>r \<in> set tr. length r = d" "\<forall>r \<in> set te. length r = d" "0 < d"
  shows "cosine_matrix tr te
         = Inr (map (\<lambda>t. map (\<lambda>r. dot t r / (row_norm t * row_norm r)) tr) te)"
proof -
  from np_transpose_rect [OF assms(1,2)] have "length (np_transpose tr) = d" by simp
  with assms(3) have "list_all (\<lambda>r. length r = length (np_transpose tr)) te"
    by (simp add: list_all_iff)
  then have "np_dot te (np_transpose tr)
             = Inr (map (\<lambda>t. map (dot t) (np_transpose (np_transpose tr))) te)"
    by (simp add: np_dot_def)
  also have "np_transpose (np_transpose tr) = tr"
    using assms(1,2,4) by (rule np_transpose_involution)
  finally have x: "np_dot te (np_transpose tr) = Inr (map (\<lambda>t. map (dot t) tr) te)" .
  have "map2 (\<lambda>xr mt. map2 (\<lambda>xv mr. xv / (mt * mr)) xr (map row_norm tr))
          (map (\<lambda>t. map (dot t) tr) te) (map row_norm te)
        = map (\<lambda>t. map (\<lambda>r. dot t r / (row_norm t * row_norm r)) tr) te"
    by (simp add: map2_map_map)
  with x show ?thesis
    by (simp add: cosine_matrix_def)
qed

lemma cosine_entry:
  assumes "length t = length r"
  shows "dot t r / (row_norm t * row_norm r) = cosine_similarity t r"
  using assms by (simp add: cosine_similarity_def row_norm_dot dot_sum)

lemma nearest_neighbour_eq:
  assumes "tr \<noteq> []" "\<forall>r \<in> set tr. length r = d" "\<forall>r \<in> set te. length r = d" "0 < d"
    and "length labels = length tr"
  shows "\<exists>D ls. cosine_matrix tr te = Inr D \<and> nearest_neighbour tr labels te = Inr ls
           \<and> length D = length te \<and> length ls = length te
           \<and> (\<forall>i < length te. length (D ! i) = length tr
                 \<and> (\<forall>j < length tr. D ! i ! j = cosine_similarity (te ! i) (tr ! j))
                 \<and> (\<exists>j < length tr. ls ! i = labels ! j
                        \<and> (\<forall>k < length tr. D ! i ! k \<le> D ! i ! j)
                        \<and> (\<forall>k < j. D ! i ! k < D ! i ! j)))"
proof -
  define D where "D = map (\<lambda>t. map (\<lambda>r. dot t r / (row_norm t * row_norm r)) tr) te"
  define g where "g = (\<lambda>row. projr (np_argmax row))"
  define ls where "ls = map (\<lambda>row. labels ! g row) D"
  have D: "cosine_matrix tr te = Inr D"
    unfolding D_def using assms(1-4) by (rule cosine_matrix_eq)
  have lenD: "length D = length te" and lenls: "length ls = length te"
    by (simp_all add: D_def ls_def)
  have rowD: "length (D ! i) = length tr"
    and entD: "\<forall>k < length tr. D ! i ! k = cosine_similarity (te ! i) (tr ! k)"
    if "i < length te" for i
    using that assms(2,3) by (simp_all add: D_def cosine_entry)
  have am: "\<exists>j. np_argmax row = Inr j \<and> j < length tr \<and> (\<forall>k < length tr. row ! k \<le> row ! j)
              \<and> (\<forall>k < j. row ! k < row ! j)" if "row \<in> set D" for row
  proof -
    from that assms(1) have "row \<noteq> []" "length row = length tr" by (auto simp: D_def)
    with np_argmax_first_max [of row] show ?thesis by simp
  qed
  have gj: "np_argmax row = Inr (g row) \<and> g row < length tr" if "row \<in> set D" for row
    using am [OF that] by (auto simp: g_def)
  then have "\<forall>row \<in> set D. np_argmax row = Inr (g row)" by simp
  then have c1: "collect (map np_argmax D) = Inr (map g D)" by (rule collect_map)
  have "\<forall>j \<in> set (map g D).
          (if j < length labels then Inr (labels ! j) else Inl IndexError) = Inr (labels ! j)"
    using gj assms(5) by auto
  then have "collect (map (\<lambda>j. if j < length labels then Inr (labels ! j) else Inl IndexError)
                (map g D)) = Inr (map (\<lambda>j. labels ! j) (map g D))"
    by (rule collect_map)
  with c1 D assms(1) have nn: "nearest_neighbour tr labels te = Inr ls"
    by (simp add: nearest_neighbour_def ls_def comp_def)
  have best: "\<exists>j < length tr. ls ! i = labels ! j
              \<and> (\<forall>k < length tr. D ! i ! k \<le> D ! i ! j)
              \<and> (\<forall>k < j. D ! i ! k < D ! i ! j)" if i: "i < length te" for i
  proof -
    from i lenD have mem: "D ! i \<in> set D" by simp
    from am [OF mem] obtain j where j: "np_argmax (D ! i) = Inr j" "j < length tr"
      "\<forall>k < length tr. D ! i ! k \<le> D ! i ! j" "\<forall>k < j. D ! i ! k < D ! i ! j"
      by blast
    from j(1) have "g (D ! i) = j" by (simp add: g_def)
    with i lenD have "ls ! i = labels ! j" by (simp add: ls_def)
    with j show ?thesis by blast
  qed
  show ?thesis
  proof (rule exI [of _ D], rule exI [of _ ls], intro conjI)
    show "cosine_matrix tr te = Inr D" by (rule D)
    show "nearest_neighbour tr labels te = Inr ls" by (rule nn)
    show "length D = length te" by (rule lenD)
    show "length ls = length te" by (rule lenls)
    show "\<forall>i < length te. length (D ! i) = length tr
                 \<and> (\<forall>j < length tr. D ! i ! j = cosine_similarity (te ! i) (tr ! j))
                 \<and> (\<exists>j < length tr. ls ! i = labels ! j
                        \<and> (\<forall>k < length tr. D ! i ! k \<le> D ! i ! j)
                        \<and> (\<forall>k < j. D ! i ! k < D ! i ! j))"
    proof (intro allI impI)
      fix i assume i: "i < length te"
      show "length (D ! i) = length tr
                 \<and> (\<forall>j < length tr. D ! i ! j = cosine_similarity (te ! i) (tr ! j))
                 \<and> (\<exists>j < length tr. ls ! i = labels ! j
                        \<and> (\<forall>k < length tr. D ! i ! k \<le> D ! i ! j)
                        \<and> (\<forall>k < j. D ! i ! k < D ! i ! j))"
        by (intro conjI rowD [OF i] entD [OF i] best [OF i])
    qed
  qed
qed

text \<open>
  Claim C2. Let the training matrix have \<open>M\<close> rows, at least one, the label list have
  length \<open>M\<close>, the test matrix have \<open>N\<close> rows, all rows have the same length and a norm
  other than zero. Then \<^verbatim>\<open>nearest_neighbour\<close> computes the \<open>N\<close> by \<open>M\<close> matrix
  whose entry \<open>(i, j)\<close> is the dot product of test row \<open>i\<close> and training row \<open>j\<close>
  divided by the product of their norms, and returns \<open>N\<close> labels in the order of the test
  rows: label \<open>i\<close> is the label of a training row of maximal similarity to test row
  \<open>i\<close>, and every training row of lower index has a strictly smaller similarity.
  \<^verbatim>\<open>classify_page\<close> returns what \<^verbatim>\<open>nearest_neighbour\<close> returns on the stored
  training vectors and labels.
\<close>

theorem nearest_neighbour_cosine_argmax:
  assumes "tr \<noteq> []"
    and "\<forall>r \<in> set tr. length r = d \<and> row_norm r \<noteq> 0"
    and "\<forall>r \<in> set te. length r = d \<and> row_norm r \<noteq> 0"
    and "length labels = length tr"
  shows "(\<exists>D ls. cosine_matrix tr te = Inr D \<and> nearest_neighbour tr labels te = Inr ls
           \<and> length D = length te \<and> length ls = length te
           \<and> (\<forall>i < length te. length (D ! i) = length tr
                 \<and> (\<forall>j < length tr. D ! i ! j = cosine_similarity (te ! i) (tr ! j))
                 \<and> (\<exists>j < length tr. ls ! i = labels ! j
                        \<and> (\<forall>k < length tr. D ! i ! k \<le> D ! i ! j)
                        \<and> (\<forall>k < j. D ! i ! k < D ! i ! j))))
       \<and> (fvectors_train m = Some tr \<and> labels_train m = labels
            \<longrightarrow> classify_page te m = nearest_neighbour tr labels te)"
proof (rule conjI)
  from assms(1) obtain r where "r \<in> set tr" by (cases tr) auto
  with assms(2) have "0 < d" using row_norm_nonzero_nonempty [of r] by auto
  with assms show "\<exists>D ls. cosine_matrix tr te = Inr D \<and> nearest_neighbour tr labels te = Inr ls
           \<and> length D = length te \<and> length ls = length te
           \<and> (\<forall>i < length te. length (D ! i) = length tr
                 \<and> (\<forall>j < length tr. D ! i ! j = cosine_similarity (te ! i) (tr ! j))
                 \<and> (\<exists>j < length tr. ls ! i = labels ! j
                        \<and> (\<forall>k < length tr. D ! i ! k \<le> D ! i ! j)
                        \<and> (\<forall>k < j. D ! i ! k < D ! i ! j)))"
    by (intro nearest_neighbour_eq [where d = d]) simp_all
next
  show "fvectors_train m = Some tr \<and> labels_train m = labels
            \<longrightarrow> classify_page te m = nearest_neighbour tr labels te"
    by (simp add: classify_page_def)
qed

theorem nearest_neighbour_cosine_argmax_witness:
  "[[1, 0], [0, 2], [2, 0::real]] \<noteq> []
   \<and> list_all (\<lambda>r. length r = 2 \<and> row_norm r \<noteq> 0) [[1, 0], [0, 2], [2, 0]]
   \<and> list_all (\<lambda>r. length r = 2 \<and> row_norm r \<noteq> 0) [[2, 0], [0, 1]]
   \<and> length [''A'', ''B'', ''C''] = length [[1, 0], [0, 2], [2, 0::real]]
   \<and> fvectors_train ex_trained = Some [[1, 0], [0, 2], [2, 0]]
   \<and> labels_train ex_trained = [''A'', ''B'', ''C'']
   \<and> cosine_matrix [[1, 0], [0, 2], [2, 0]] [[2, 0], [0, 1]] = Inr [[1, 0, 1], [0, 1, 0]]
   \<and> nearest_neighbour [[1, 0], [0, 2], [2, 0]] [''A'', ''B'', ''C''] [[2, 0], [0, 1]]
      = Inr [''A'', ''B'']
   \<and> classify_page [[2, 0], [0, 1]] ex_trained = Inr [''A'', ''B'']"
proof -
  have h1: "[[1, 0], [0, 2], [2, 0::real]] \<noteq> []" by simp
  have h2: "\<forall>r \<in> set [[1, 0], [0, 2], [2, 0]]. length r = 2 \<and> row_norm r \<noteq> 0"
    by (simp add: row_norm_def)
  have h3: "\<forall>r \<in> set [[2, 0], [0, 1]]. length r = 2 \<and> row_norm r \<noteq> 0"
    by (simp add: row_norm_def)
  have h4: "length [''A'', ''B'', ''C''] = length [[1, 0], [0, 2], [2, 0::real]]" by simp
  have m: "fvectors_train ex_trained = Some [[1, 0], [0, 2], [2, 0]]"
    "labels_train ex_trained = [''A'', ''B'', ''C'']"
    by (simp_all add: ex_trained_def)
  have c: "cosine_matrix [[1, 0], [0, 2], [2, 0]] [[2, 0], [0, 1]] = Inr [[1, 0, 1], [0, 1, 0]]"
    by (simp add: cosine_matrix_def np_dot_def dot_def row_norm_def)
  have n: "nearest_neighbour [[1, 0], [0, 2], [2, 0]] [''A'', ''B'', ''C''] [[2, 0], [0, 1]]
      = Inr [''A'', ''B'']"
    by (simp add: nearest_neighbour_def c)
  from nearest_neighbour_cosine_argmax [OF h1 h2 h3 h4, where m = ex_trained] m
  have "classify_page [[2, 0], [0, 1]] ex_trained
        = nearest_neighbour [[1, 0], [0, 2], [2, 0]] [''A'', ''B'', ''C''] [[2, 0], [0, 1]]"
    by blast
  with n have "classify_page [[2, 0], [0, 1]] ex_trained = Inr [''A'', ''B'']" by simp
  with h2 h3 m c n show ?thesis by (simp add: list_all_iff)
qed

text \<open>
  With the arithmetic of the reals the definitions with the arithmetic left open are the
  ones above.
\<close>

lemma np_dot_rounded_exact: "np_dot_rounded dot a b = np_dot a b"
  by (simp add: np_dot_rounded_def np_dot_def)

lemma exact_simps:
  "a_dot exact = dot" "a_norm exact = row_norm" "a_mul exact = (*)" "a_div exact = (/)"
  by (simp_all add: exact_def)

lemma cosine_matrix_rounded_exact: "cosine_matrix_rounded exact tr te = cosine_matrix tr te"
  unfolding cosine_matrix_rounded_def cosine_matrix_def exact_simps np_dot_rounded_exact
  by (rule refl)

lemma nearest_neighbour_rounded_exact:
  "nearest_neighbour_rounded exact tr labels te = nearest_neighbour tr labels te"
  by (simp add: nearest_neighbour_rounded_def nearest_neighbour_def cosine_matrix_rounded_exact)

text \<open>The computed similarity matrix and the labels returned, for every arithmetic.\<close>

lemma cosine_matrix_rounded_eq:
  assumes "tr \<noteq> []" "\<forall>r \<in> set tr. length r = d" "\<forall>r \<in> set te. length r = d" "0 < d"
  shows "cosine_matrix_rounded ar tr te
         = Inr (map (\<lambda>t. map (\<lambda>r. a_div ar (a_dot ar t r) (a_mul ar (a_norm ar t) (a_norm ar r)))
                    tr) te)"
proof -
  from np_transpose_rect [OF assms(1,2)] have "length (np_transpose tr) = d" by simp
  with assms(3) have "list_all (\<lambda>r. length r = length (np_transpose tr)) te"
    by (simp add: list_all_iff)
  then have "np_dot_rounded (a_dot ar) te (np_transpose tr)
             = Inr (map (\<lambda>t. map (a_dot ar t) (np_transpose (np_transpose tr))) te)"
    by (simp add: np_dot_rounded_def)
  also have "np_transpose (np_transpose tr) = tr"
    using assms(1,2,4) by (rule np_transpose_involution)
  finally have x: "np_dot_rounded (a_dot ar) te (np_transpose tr)
                   = Inr (map (\<lambda>t. map (a_dot ar t) tr) te)" .
  have "map2 (\<lambda>xr mt. map2 (\<lambda>xv mr. a_div ar xv (a_mul ar mt mr)) xr (map (a_norm ar) tr))
          (map (\<lambda>t. map (a_dot ar t) tr) te) (map (a_norm ar) te)
        = map (\<lambda>t. map (\<lambda>r. a_div ar (a_dot ar t r) (a_mul ar (a_norm ar t) (a_norm ar r))) tr) te"
    by (simp add: map2_map_map)
  with x show ?thesis
    by (simp add: cosine_matrix_rounded_def)
qed

lemma nearest_neighbour_rounded_eq:
  assumes "tr \<noteq> []" "\<forall>r \<in> set tr. length r = d" "\<forall>r \<in> set te. length r = d" "0 < d"
    and "length labels = length tr"
  shows "\<exists>D ls. cosine_matrix_rounded ar tr te = Inr D
           \<and> nearest_neighbour_rounded ar tr labels te = Inr ls
           \<and> length D = length te \<and> length ls = length te
           \<and> (\<forall>i < length te. length (D ! i) = length tr
                 \<and> (\<forall>j < length tr. D ! i ! j
                       = a_div ar (a_dot ar (te ! i) (tr ! j))
                           (a_mul ar (a_norm ar (te ! i)) (a_norm ar (tr ! j))))
                 \<and> (\<exists>j < length tr. ls ! i = labels ! j
                        \<and> (\<forall>k < length tr. D ! i ! k \<le> D ! i ! j)
                        \<and> (\<forall>k < j. D ! i ! k < D ! i ! j)))"
proof -
  define D where "D = map (\<lambda>t. map (\<lambda>r. a_div ar (a_dot ar t r)
                              (a_mul ar (a_norm ar t) (a_norm ar r))) tr) te"
  define g where "g = (\<lambda>row. projr (np_argmax row))"
  define ls where "ls = map (\<lambda>row. labels ! g row) D"
  have D: "cosine_matrix_rounded ar tr te = Inr D"
    unfolding D_def using assms(1-4) by (rule cosine_matrix_rounded_eq)
  have lenD: "length D = length te" and lenls: "length ls = length te"
    by (simp_all add: D_def ls_def)
  have rowD: "length (D ! i) = length tr"
    and entD: "\<forall>k < length tr. D ! i ! k
                 = a_div ar (a_dot ar (te ! i) (tr ! k))
                     (a_mul ar (a_norm ar (te ! i)) (a_norm ar (tr ! k)))"
    if "i < length te" for i
    using that by (simp_all add: D_def)
  have am: "\<exists>j. np_argmax row = Inr j \<and> j < length tr \<and> (\<forall>k < length tr. row ! k \<le> row ! j)
              \<and> (\<forall>k < j. row ! k < row ! j)" if "row \<in> set D" for row
  proof -
    from that assms(1) have "row \<noteq> []" "length row = length tr" by (auto simp: D_def)
    with np_argmax_first_max [of row] show ?thesis by simp
  qed
  have gj: "np_argmax row = Inr (g row) \<and> g row < length tr" if "row \<in> set D" for row
    using am [OF that] by (auto simp: g_def)
  then have "\<forall>row \<in> set D. np_argmax row = Inr (g row)" by simp
  then have c1: "collect (map np_argmax D) = Inr (map g D)" by (rule collect_map)
  have "\<forall>j \<in> set (map g D).
          (if j < length labels then Inr (labels ! j) else Inl IndexError) = Inr (labels ! j)"
    using gj assms(5) by auto
  then have "collect (map (\<lambda>j. if j < length labels then Inr (labels ! j) else Inl IndexError)
                (map g D)) = Inr (map (\<lambda>j. labels ! j) (map g D))"
    by (rule collect_map)
  with c1 D assms(1) have nn: "nearest_neighbour_rounded ar tr labels te = Inr ls"
    by (simp add: nearest_neighbour_rounded_def ls_def comp_def)
  have best: "\<exists>j < length tr. ls ! i = labels ! j
              \<and> (\<forall>k < length tr. D ! i ! k \<le> D ! i ! j)
              \<and> (\<forall>k < j. D ! i ! k < D ! i ! j)" if i: "i < length te" for i
  proof -
    from i lenD have mem: "D ! i \<in> set D" by simp
    from am [OF mem] obtain j where j: "np_argmax (D ! i) = Inr j" "j < length tr"
      "\<forall>k < length tr. D ! i ! k \<le> D ! i ! j" "\<forall>k < j. D ! i ! k < D ! i ! j"
      by blast
    from j(1) have "g (D ! i) = j" by (simp add: g_def)
    with i lenD have "ls ! i = labels ! j" by (simp add: ls_def)
    with j show ?thesis by blast
  qed
  show ?thesis
  proof (rule exI [of _ D], rule exI [of _ ls], intro conjI)
    show "cosine_matrix_rounded ar tr te = Inr D" by (rule D)
    show "nearest_neighbour_rounded ar tr labels te = Inr ls" by (rule nn)
    show "length D = length te" by (rule lenD)
    show "length ls = length te" by (rule lenls)
    show "\<forall>i < length te. length (D ! i) = length tr
                 \<and> (\<forall>j < length tr. D ! i ! j
                       = a_div ar (a_dot ar (te ! i) (tr ! j))
                           (a_mul ar (a_norm ar (te ! i)) (a_norm ar (tr ! j))))
                 \<and> (\<exists>j < length tr. ls ! i = labels ! j
                        \<and> (\<forall>k < length tr. D ! i ! k \<le> D ! i ! j)
                        \<and> (\<forall>k < j. D ! i ! k < D ! i ! j))"
    proof (intro allI impI)
      fix i assume i: "i < length te"
      show "length (D ! i) = length tr
                 \<and> (\<forall>j < length tr. D ! i ! j
                       = a_div ar (a_dot ar (te ! i) (tr ! j))
                           (a_mul ar (a_norm ar (te ! i)) (a_norm ar (tr ! j))))
                 \<and> (\<exists>j < length tr. ls ! i = labels ! j
                        \<and> (\<forall>k < length tr. D ! i ! k \<le> D ! i ! j)
                        \<and> (\<forall>k < j. D ! i ! k < D ! i ! j))"
        by (intro conjI rowD [OF i] entD [OF i] best [OF i])
    qed
  qed
qed

text \<open>
  In the arithmetic of the reals the quotient of a vector with itself is 1. The run with
  the arithmetic of doubles shows a computed quotient just below 1 for \<open>[7, 14]\<close> with
  itself and exactly 1 for \<open>[7, 14]\<close> with \<open>[1, 2]\<close>.
\<close>

lemma dot_self_nonneg: "0 \<le> dot a a"
  unfolding dot_def by (induction a) simp_all

lemma cosine_self:
  assumes "row_norm a \<noteq> 0"
  shows "dot a a / (row_norm a * row_norm a) = 1"
proof -
  have "row_norm a * row_norm a = dot a a"
    by (simp add: row_norm_dot dot_self_nonneg)
  moreover from assms have "row_norm a * row_norm a \<noteq> 0" by simp
  ultimately show ?thesis by simp
qed

lemma self_quotient_exact:
  assumes "row_norm x \<noteq> 0"
  shows "a_div exact (a_dot exact x x) (a_mul exact (a_norm exact x) (a_norm exact x)) = 1"
  unfolding exact_simps by (rule cosine_self [OF assms])

lemma ex_double_run:
  "cosine_matrix_rounded ex_double [[7, 14], [1, 2]] [[7, 14]]
     = Inr [[9007199254740991 / 9007199254740992, 1]]
   \<and> nearest_neighbour_rounded ex_double [[7, 14], [1, 2]] [''A'', ''B''] [[7, 14]] = Inr [''B'']"
  by (simp add: nearest_neighbour_rounded_def cosine_matrix_rounded_def np_dot_rounded_def
      ex_double_def dot_def)

text \<open>
  Claim C8, as amended. Under the conditions of claim C2, let test row \<open>i\<close> be identical
  to training row \<open>j\<close>, and let the four operations of the arithmetic be any functions,
  those of doubles among them. The similarity that \<^verbatim>\<open>nearest_neighbour\<close> computes
  for the pair is the computed quotient of the row's dot product with itself and the
  product of its norm with itself. The test row gets the label of the first training row
  whose computed similarity to it is the largest of the row. This is the label of training
  row \<open>j\<close> whenever the computed similarity of the pair is at least that of every training
  row and larger than that of every training row of lower index.
\<close>

theorem identical_vector_gets_first_maximal_label:
  assumes "tr \<noteq> []"
    and "\<forall>r \<in> set tr. length r = d \<and> row_norm r \<noteq> 0"
    and "\<forall>r \<in> set te. length r = d \<and> row_norm r \<noteq> 0"
    and "length labels = length tr"
    and "i < length te" "j < length tr" "te ! i = tr ! j"
  shows "\<exists>D ls j'. cosine_matrix_rounded ar tr te = Inr D
           \<and> nearest_neighbour_rounded ar tr labels te = Inr ls \<and> length ls = length te
           \<and> D ! i ! j = a_div ar (a_dot ar (tr ! j) (tr ! j))
                            (a_mul ar (a_norm ar (tr ! j)) (a_norm ar (tr ! j)))
           \<and> j' < length tr \<and> ls ! i = labels ! j'
           \<and> (\<forall>k < length tr. D ! i ! k \<le> D ! i ! j') \<and> (\<forall>k < j'. D ! i ! k < D ! i ! j')
           \<and> ((\<forall>k < length tr. D ! i ! k \<le> D ! i ! j) \<and> (\<forall>k < j. D ! i ! k < D ! i ! j)
                \<longrightarrow> ls ! i = labels ! j)"
proof -
  from assms(1) obtain r where "r \<in> set tr" by (cases tr) auto
  with assms(2) have d: "0 < d" using row_norm_nonzero_nonempty [of r] by auto
  from assms(2,3) have rt: "\<forall>r \<in> set tr. length r = d" and re: "\<forall>r \<in> set te. length r = d"
    by simp_all
  from nearest_neighbour_rounded_eq [OF assms(1) rt re d assms(4), of ar]
  obtain D ls where cm: "cosine_matrix_rounded ar tr te = Inr D"
    and nn: "nearest_neighbour_rounded ar tr labels te = Inr ls" "length ls = length te"
    and row: "\<forall>i < length te. length (D ! i) = length tr
                 \<and> (\<forall>j < length tr. D ! i ! j
                       = a_div ar (a_dot ar (te ! i) (tr ! j))
                           (a_mul ar (a_norm ar (te ! i)) (a_norm ar (tr ! j))))
                 \<and> (\<exists>j < length tr. ls ! i = labels ! j
                        \<and> (\<forall>k < length tr. D ! i ! k \<le> D ! i ! j)
                        \<and> (\<forall>k < j. D ! i ! k < D ! i ! j))"
    by blast
  note ri = row [rule_format, OF assms(5)]
  have "\<forall>k < length tr. D ! i ! k
          = a_div ar (a_dot ar (te ! i) (tr ! k)) (a_mul ar (a_norm ar (te ! i)) (a_norm ar (tr ! k)))"
    by (rule ri [THEN conjunct2, THEN conjunct1])
  with assms(6) have self: "D ! i ! j = a_div ar (a_dot ar (tr ! j) (tr ! j))
                            (a_mul ar (a_norm ar (tr ! j)) (a_norm ar (tr ! j)))"
    by (simp add: assms(7))
  have "\<exists>j < length tr. ls ! i = labels ! j
      \<and> (\<forall>k < length tr. D ! i ! k \<le> D ! i ! j) \<and> (\<forall>k < j. D ! i ! k < D ! i ! j)"
    by (rule ri [THEN conjunct2, THEN conjunct2])
  then obtain j' where j': "j' < length tr" "ls ! i = labels ! j'"
    "\<forall>k < length tr. D ! i ! k \<le> D ! i ! j'" "\<forall>k < j'. D ! i ! k < D ! i ! j'"
    by blast
  have own: "ls ! i = labels ! j"
    if a: "\<forall>k < length tr. D ! i ! k \<le> D ! i ! j" and b: "\<forall>k < j. D ! i ! k < D ! i ! j"
  proof -
    have "\<not> j' < j"
    proof
      assume "j' < j"
      with b have "D ! i ! j' < D ! i ! j" by simp
      moreover from j'(3) assms(6) have "D ! i ! j \<le> D ! i ! j'" by simp
      ultimately show False by simp
    qed
    moreover have "\<not> j < j'"
    proof
      assume "j < j'"
      with j'(4) have "D ! i ! j < D ! i ! j'" by simp
      moreover from a j'(1) have "D ! i ! j' \<le> D ! i ! j" by simp
      ultimately show False by simp
    qed
    ultimately have "j' = j" by simp
    with j'(2) show ?thesis by simp
  qed
  show ?thesis
  proof (rule exI [of _ D], rule exI [of _ ls], rule exI [of _ j'], intro conjI)
    show "cosine_matrix_rounded ar tr te = Inr D" by (rule cm)
    show "nearest_neighbour_rounded ar tr labels te = Inr ls" by (rule nn(1))
    show "length ls = length te" by (rule nn(2))
    show "D ! i ! j = a_div ar (a_dot ar (tr ! j) (tr ! j))
                            (a_mul ar (a_norm ar (tr ! j)) (a_norm ar (tr ! j)))" by (rule self)
    show "j' < length tr" by (rule j'(1))
    show "ls ! i = labels ! j'" by (rule j'(2))
    show "\<forall>k < length tr. D ! i ! k \<le> D ! i ! j'" by (rule j'(3))
    show "\<forall>k < j'. D ! i ! k < D ! i ! j'" by (rule j'(4))
    show "(\<forall>k < length tr. D ! i ! k \<le> D ! i ! j) \<and> (\<forall>k < j. D ! i ! k < D ! i ! j)
                \<longrightarrow> ls ! i = labels ! j"
      using own by blast
  qed
qed

theorem identical_vector_gets_first_maximal_label_witness:
  "[[1, 0], [0, 2], [2, 0::real]] \<noteq> []
   \<and> list_all (\<lambda>r. length r = 2 \<and> row_norm r \<noteq> 0) [[1, 0], [0, 2], [2, 0]]
   \<and> list_all (\<lambda>r. length r = 2 \<and> row_norm r \<noteq> 0) [[0, 2]]
   \<and> [[0, 2]] ! 0 = [[1, 0], [0, 2], [2, 0::real]] ! 1
   \<and> cosine_matrix_rounded exact [[1, 0], [0, 2], [2, 0]] [[0, 2]] = Inr [[0, 1, 0]]
   \<and> nearest_neighbour_rounded exact [[1, 0], [0, 2], [2, 0]] [''A'', ''B'', ''C''] [[0, 2]]
        = Inr [''B'']
   \<and> nearest_neighbour [[1, 0], [0, 2], [2, 0]] [''A'', ''B'', ''C''] [[0, 2]] = Inr [''B'']
   \<and> list_all (\<lambda>r. length r = 2 \<and> row_norm r \<noteq> 0) [[7, 14], [1, 2]]
   \<and> cosine_matrix_rounded ex_double [[7, 14], [1, 2]] [[7, 14]]
        = Inr [[9007199254740991 / 9007199254740992, 1]]
   \<and> nearest_neighbour_rounded ex_double [[7, 14], [1, 2]] [''A'', ''B''] [[7, 14]] = Inr [''B'']"
proof -
  have h1: "[[1, 0], [0, 2], [2, 0::real]] \<noteq> []" by simp
  have h2: "\<forall>r \<in> set [[1, 0], [0, 2], [2, 0]]. length r = 2 \<and> row_norm r \<noteq> 0"
    by (simp add: row_norm_def)
  have h3: "\<forall>r \<in> set [[0, 2]]. length r = 2 \<and> row_norm r \<noteq> 0"
    by (simp add: row_norm_def)
  have h4: "length [''A'', ''B'', ''C''] = length [[1, 0], [0, 2], [2, 0::real]]" by simp
  have h5: "(0::nat) < length [[0, 2::real]]" "(1::nat) < length [[1, 0], [0, 2], [2, 0::real]]"
    "[[0, 2]] ! 0 = [[1, 0], [0, 2], [2, 0::real]] ! 1"
    by simp_all
  have c: "cosine_matrix_rounded exact [[1, 0], [0, 2], [2, 0]] [[0, 2]] = Inr [[0, 1, 0]]"
    by (simp add: cosine_matrix_rounded_def np_dot_rounded_def exact_simps dot_def row_norm_def)
  from identical_vector_gets_first_maximal_label [OF h1 h2 h3 h4 h5, of exact] c
  obtain ls where ls: "nearest_neighbour_rounded exact [[1, 0], [0, 2], [2, 0]]
        [''A'', ''B'', ''C''] [[0, 2]] = Inr ls" "length ls = 1" "ls ! 0 = [''A'', ''B'', ''C''] ! 1"
    by (auto simp: less_Suc_eq eval_nat_numeral)
  then have "ls = [''B'']" by (cases ls) simp_all
  with ls(1) have n: "nearest_neighbour_rounded exact [[1, 0], [0, 2], [2, 0]]
        [''A'', ''B'', ''C''] [[0, 2]] = Inr [''B'']" by simp
  then have n': "nearest_neighbour [[1, 0], [0, 2], [2, 0]] [''A'', ''B'', ''C''] [[0, 2]]
        = Inr [''B'']"
    by (simp add: nearest_neighbour_rounded_exact)
  have g2: "\<forall>r \<in> set [[7, 14], [1, 2]]. length r = 2 \<and> row_norm r \<noteq> 0"
    by (simp add: row_norm_def)
  have dbl: "cosine_matrix_rounded ex_double [[7, 14], [1, 2]] [[7, 14]]
        = Inr [[9007199254740991 / 9007199254740992, 1]]"
    "nearest_neighbour_rounded ex_double [[7, 14], [1, 2]] [''A'', ''B''] [[7, 14]] = Inr [''B'']"
    using ex_double_run by simp_all
  from h2 h3 c n n' g2 dbl show ?thesis by (simp add: list_all_iff)
qed

text \<open>
  The claim as first stated fails when an earlier training row points in the same
  direction: the test row is identical to the second training row, labelled B, and gets
  the label A of the first training row, whose similarity to it is 1 as well. All
  operations on this input are exact in doubles.
\<close>

theorem identical_vector_label_counterexample:
  "[[2, 0]] ! 0 = [[1, 0], [2, 0::real]] ! 1
   \<and> [''A'', ''B''] ! 1 = ''B''
   \<and> nearest_neighbour [[1, 0], [2, 0]] [''A'', ''B''] [[2, 0]] = Inr [''A'']"
  by (simp add: nearest_neighbour_def cosine_matrix_def np_dot_def dot_def row_norm_def)

end
